theory Spec2Isabelle
  imports Complex_Main "HOL-Library.Sublist"
begin

section \<open>The tokens table\<close>

text \<open>
  Every script of the repository works on one SQLite table,
  \<^verbatim>\<open>tokens(cgId, symbol, name, description, imageUrl, updatedAt)\<close>.
  A column value is \<open>None\<close> for SQL NULL. The table is the list of its rows in
  insertion order. The builder scripts declare every column nullable (a TEXT PRIMARY KEY
  of SQLite admits NULL), so all six fields are optional in the model.
\<close>

record token_row =
  cgId :: "string option"
  symbol :: "string option"
  name :: "string option"
  description :: "string option"
  imageUrl :: "string option"
  updatedAt :: "int option"

type_synonym tokens = "token_row list"

text \<open>\<^verbatim>\<open>col IS NULL OR col = ''\<close>, the test every script uses for a missing text.\<close>

definition is_blank :: "string option \<Rightarrow> bool" where
  "is_blank v = (case v of None \<Rightarrow> True | Some s \<Rightarrow> s = [])"

text \<open>\<^verbatim>\<open>SELECT 1 FROM tokens WHERE cgId=? LIMIT 1\<close> returns a row.\<close>

definition exists_row :: "tokens \<Rightarrow> string \<Rightarrow> bool" where
  "exists_row t k = (Some k \<in> set (map cgId t))"

text \<open>SQL \<^verbatim>\<open>COALESCE(a, b)\<close>.\<close>

definition coalesce :: "'a option \<Rightarrow> 'a option \<Rightarrow> 'a option" where
  "coalesce a b = (case a of None \<Rightarrow> b | Some x \<Rightarrow> Some x)"

section \<open>Python strings and JSON values\<close>

text \<open>
  A Python \<^verbatim>\<open>str\<close> is modelled by its UTF-8 bytes, which is also what SQLite stores in
  a TEXT column. A lone surrogate, which \<^verbatim>\<open>json.load\<close> can return for an escape such
  as \<^verbatim>\<open>\ud800\<close>, is written as the three bytes \<open>0xED 0xA0..0xBF 0x80..0xBF\<close> that
  UTF-8 itself never uses; \<^verbatim>\<open>sqlite3\<close> raises UnicodeEncodeError when it has to bind a
  string with one.
\<close>

fun has_surrogate :: "string \<Rightarrow> bool" where
  "has_surrogate (a # b # cs) =
     ((a = CHR 0xED \<and> (160::nat) \<le> of_char b) \<or> has_surrogate (b # cs))"
| "has_surrogate cs = False"

text \<open>
  The characters for which \<^verbatim>\<open>str.isspace\<close> holds, in UTF-8: U+0009 to U+000D, U+001C
  to U+0020, U+0085, U+00A0, U+1680, U+2000 to U+200A, U+2028, U+2029, U+202F, U+205F
  and U+3000.
\<close>

definition py_whitespace :: "string list" where
  "py_whitespace =
     [[CHR 0x09], [CHR 0x0A], [CHR 0x0B], [CHR 0x0C], [CHR 0x0D],
      [CHR 0x1C], [CHR 0x1D], [CHR 0x1E], [CHR 0x1F], [CHR 0x20],
      [CHR 0xC2, CHR 0x85], [CHR 0xC2, CHR 0xA0], [CHR 0xE1, CHR 0x9A, CHR 0x80],
      [CHR 0xE2, CHR 0x80, CHR 0x80], [CHR 0xE2, CHR 0x80, CHR 0x81],
      [CHR 0xE2, CHR 0x80, CHR 0x82], [CHR 0xE2, CHR 0x80, CHR 0x83],
      [CHR 0xE2, CHR 0x80, CHR 0x84], [CHR 0xE2, CHR 0x80, CHR 0x85],
      [CHR 0xE2, CHR 0x80, CHR 0x86], [CHR 0xE2, CHR 0x80, CHR 0x87],
      [CHR 0xE2, CHR 0x80, CHR 0x88], [CHR 0xE2, CHR 0x80, CHR 0x89],
      [CHR 0xE2, CHR 0x80, CHR 0x8A], [CHR 0xE2, CHR 0x80, CHR 0xA8],
      [CHR 0xE2, CHR 0x80, CHR 0xA9], [CHR 0xE2, CHR 0x80, CHR 0xAF],
      [CHR 0xE2, CHR 0x81, CHR 0x9F], [CHR 0xE3, CHR 0x80, CHR 0x80]]"

text \<open>
  Removing, as long as there is one, a leading occurrence of one of the given byte
  sequences; \<^verbatim>\<open>str.strip()\<close> does it with the whitespace at both ends.
\<close>

function lstrip_any :: "string list \<Rightarrow> string \<Rightarrow> string" where
  "lstrip_any ws s =
     (case find (\<lambda>w. w \<noteq> [] \<and> take (length w) s = w) ws of
        None \<Rightarrow> s
      | Some w \<Rightarrow> lstrip_any ws (drop (length w) s))"
  by pat_completeness auto
termination
proof (relation "measure (\<lambda>(ws, s). length s)")
  show "wf (measure (\<lambda>(ws, s). length s))" by simp
next
  fix ws :: "string list" and s w :: string
  assume "find (\<lambda>w. w \<noteq> [] \<and> take (length w) s = w) ws = Some w"
  then have w: "w \<noteq> []" "take (length w) s = w"
    by (auto simp: find_Some_iff)
  from w(2) have "length (take (length w) s) = length w"
    by simp
  then have "length w \<le> length s"
    by simp
  with w(1) have "length s - length w < length s"
    by (cases w) simp_all
  then show "((ws, drop (length w) s), (ws, s)) \<in> measure (\<lambda>(ws, s). length s)"
    by simp
qed

declare lstrip_any.simps [simp del]

definition strip :: "string \<Rightarrow> string" where
  "strip s = rev (lstrip_any (map rev py_whitespace) (rev (lstrip_any py_whitespace s)))"

text \<open>
  A Python \<^verbatim>\<open>float\<close>; \<^verbatim>\<open>json.load\<close> also reads \<^verbatim>\<open>NaN\<close>, \<^verbatim>\<open>Infinity\<close> and
  \<^verbatim>\<open>-Infinity\<close>.
\<close>

datatype pyfloat = Float_of real | Float_inf | Float_neg_inf | Float_nan

text \<open>
  A value that \<^verbatim>\<open>json.load\<close> returns. An object is the loaded dict: its pairs in
  order, each key once. Python's \<^verbatim>\<open>None\<close> is \<open>JNull\<close>.
\<close>

datatype json =
  JNull
  | JBool bool
  | JInt int
  | JFloat pyfloat
  | JStr string
  | JArr "json list"
  | JObj "(string \<times> json) list"

text \<open>Python's truth value (\<^verbatim>\<open>if not v\<close>, \<^verbatim>\<open>a or b\<close>, \<^verbatim>\<open>v if v else None\<close>).\<close>

fun truthy :: "json \<Rightarrow> bool" where
  "truthy JNull = False"
| "truthy (JBool b) = b"
| "truthy (JInt n) = (n \<noteq> 0)"
| "truthy (JFloat x) = (x \<noteq> Float_of 0)"
| "truthy (JStr s) = (s \<noteq> [])"
| "truthy (JArr xs) = (xs \<noteq> [])"
| "truthy (JObj kvs) = (kvs \<noteq> [])"

definition py_or :: "json \<Rightarrow> json \<Rightarrow> json" where
  "py_or a b = (if truthy a then a else b)"

definition none_if_falsy :: "json \<Rightarrow> json" where
  "none_if_falsy v = (if truthy v then v else JNull)"

text \<open>\<^verbatim>\<open>d.get(k)\<close> on a dict.\<close>

definition py_get :: "(string \<times> json) list \<Rightarrow> string \<Rightarrow> json" where
  "py_get d k = (case map_of d k of None \<Rightarrow> JNull | Some v \<Rightarrow> v)"

datatype error =
  ValueError
  | AttributeError
  | TypeError
  | OverflowError
  | UnicodeEncodeError
  | ProgrammingError
  | OperationalError
  | RuntimeError
  | HTTPError nat
  | Timeout
  | ConnectionError

text \<open>
  Binding a parameter with \<^verbatim>\<open>sqlite3\<close> and storing it in a column of TEXT affinity:
  \<^verbatim>\<open>None\<close> is NULL, a string is stored as it is, a number is stored as its text, and
  anything else is refused. An integer must fit 64 bits. The text of an integer is its
  decimal form; what SQLite stores for a float is a parameter, \<open>float_text\<close> (NULL,
  that is \<open>None\<close>, for a NaN).
\<close>

function decimal_nat :: "nat \<Rightarrow> string" where
  "decimal_nat n =
     (if n < 10 then [''0123456789'' ! n]
      else decimal_nat (n div 10) @ [''0123456789'' ! (n mod 10)])"
  by pat_completeness auto
termination
  by (relation "measure id") auto

declare decimal_nat.simps [simp del]

definition decimal :: "int \<Rightarrow> string" where
  "decimal n = (if n < 0 then CHR ''-'' # decimal_nat (nat (- n)) else decimal_nat (nat n))"

definition bind_text :: "(pyfloat \<Rightarrow> string option) \<Rightarrow> json \<Rightarrow> error + string option" where
  "bind_text float_text v =
     (case v of
        JNull \<Rightarrow> Inr None
      | JBool b \<Rightarrow> Inr (Some (if b then ''1'' else ''0''))
      | JInt n \<Rightarrow>
          if - (2 ^ 63) \<le> n \<and> n < 2 ^ 63 then Inr (Some (decimal n)) else Inl OverflowError
      | JFloat x \<Rightarrow> Inr (float_text x)
      | JStr s \<Rightarrow> if has_surrogate s then Inl UnicodeEncodeError else Inr (Some s)
      | JArr xs \<Rightarrow> Inl ProgrammingError
      | JObj kvs \<Rightarrow> Inl ProgrammingError)"

section \<open>safe\_patch\_prebuilt\_db.py: apply\_patches\<close>

text \<open>\<^verbatim>\<open>{"cgId": k, **v}\<close>: the keys of \<open>v\<close> win over the key \<open>cgId\<close> set first.\<close>

definition map_form_entry :: "string \<Rightarrow> (string \<times> json) list \<Rightarrow> json" where
  "map_form_entry k v = JObj (v @ [(''cgId'', JStr k)])"

fun map_form_items :: "(string \<times> json) list \<Rightarrow> json list" where
  "map_form_items [] = []"
| "map_form_items ((k, JObj v) # kvs) = map_form_entry k v # map_form_items kvs"
| "map_form_items ((k, _) # kvs) = map_form_items kvs"

text \<open>The first part of \<^verbatim>\<open>apply_patches\<close>: the three accepted shapes become one list.\<close>

definition patch_items :: "json \<Rightarrow> error + json list" where
  "patch_items p =
     (case p of
        JObj kvs \<Rightarrow>
          (case map_of kvs ''items'' of
             Some (JArr items) \<Rightarrow> Inr items
           | _ \<Rightarrow> Inr (map_form_items kvs))
      | JArr items \<Rightarrow> Inr items
      | _ \<Rightarrow> Inl ValueError)"

text \<open>
  \<^verbatim>\<open>(it.get("cgId") or it.get("id") or "").strip()\<close> for a dict \<open>it\<close>: the value the
  two \<^verbatim>\<open>or\<close> select has a method \<^verbatim>\<open>strip\<close> only when it is a string.
\<close>

definition entry_cgId :: "(string \<times> json) list \<Rightarrow> error + string" where
  "entry_cgId it =
     (case py_or (py_or (py_get it ''cgId'') (py_get it ''id'')) (JStr []) of
        JStr s \<Rightarrow> Inr (strip s)
      | _ \<Rightarrow> Inl AttributeError)"

text \<open>
  The UPDATE statement of \<^verbatim>\<open>apply_patches\<close>; \<open>p_desc\<close> and \<open>p_img\<close> are the first
  two parameters as SQLite stores them.
\<close>

definition patch_update :: "string option \<Rightarrow> string option \<Rightarrow> int \<Rightarrow> string \<Rightarrow> token_row \<Rightarrow> token_row" where
  "patch_update p_desc p_img ts k r =
     (if cgId r = Some k
      then r\<lparr>description := coalesce p_desc (description r),
             imageUrl := coalesce p_img (imageUrl r),
             updatedAt := Some ts\<rparr>
      else r)"

text \<open>
  The state of the loop: the table and the three counters. One iteration, with the
  source's order of tests: no identifier, not in the table, nothing to patch, dry run,
  update. An entry that is not a dict has no method \<^verbatim>\<open>get\<close>; the SELECT binds the
  identifier, and the UPDATE binds
  \<^verbatim>\<open>(desc if desc else None, img if img else None, ts, cgId)\<close> in this order.
\<close>

record patch_state =
  table :: tokens
  updated :: nat
  missing :: nat
  skipped :: nat

definition patch_one ::
  "(pyfloat \<Rightarrow> string option) \<Rightarrow> bool \<Rightarrow> int \<Rightarrow> patch_state \<Rightarrow> json \<Rightarrow> error + patch_state" where
  "patch_one float_text dry_run ts s entry =
     (case entry of
        JObj it \<Rightarrow>
          (case entry_cgId it of
             Inl e \<Rightarrow> Inl e
           | Inr k \<Rightarrow>
               if k = [] then Inr (s\<lparr>skipped := skipped s + 1\<rparr>)
               else
                 let desc = py_get it ''description''; img = py_get it ''imageUrl'' in
                 if has_surrogate k then Inl UnicodeEncodeError
                 else if \<not> exists_row (table s) k then Inr (s\<lparr>missing := missing s + 1\<rparr>)
                 else if (desc = JNull \<or> desc = JStr []) \<and> (img = JNull \<or> img = JStr [])
                 then Inr (s\<lparr>skipped := skipped s + 1\<rparr>)
                 else if dry_run then Inr (s\<lparr>updated := updated s + 1\<rparr>)
                 else
                   (case bind_text float_text (none_if_falsy desc) of
                      Inl e \<Rightarrow> Inl e
                    | Inr p_desc \<Rightarrow>
                        (case bind_text float_text (none_if_falsy img) of
                           Inl e \<Rightarrow> Inl e
                         | Inr p_img \<Rightarrow>
                             Inr (s\<lparr>table := map (patch_update p_desc p_img ts k) (table s),
                                    updated := updated s + 1\<rparr>))))
      | _ \<Rightarrow> Inl AttributeError)"

fun patch_loop ::
  "(pyfloat \<Rightarrow> string option) \<Rightarrow> bool \<Rightarrow> int \<Rightarrow> patch_state \<Rightarrow> json list \<Rightarrow> error + patch_state" where
  "patch_loop float_text dry_run ts s [] = Inr s"
| "patch_loop float_text dry_run ts s (entry # items) =
     (case patch_one float_text dry_run ts s entry of
        Inl e \<Rightarrow> Inl e
      | Inr s' \<Rightarrow> patch_loop float_text dry_run ts s' items)"

text \<open>
  \<^verbatim>\<open>apply_patches\<close> returns the counts; the table is the one it leaves behind. When it
  raises, nothing of this call has been committed.
\<close>

definition apply_patches ::
  "(pyfloat \<Rightarrow> string option) \<Rightarrow> tokens \<Rightarrow> json \<Rightarrow> bool \<Rightarrow> int \<Rightarrow> error + (tokens \<times> nat \<times> nat \<times> nat)" where
  "apply_patches float_text t p dry_run ts =
     (case patch_items p of
        Inl e \<Rightarrow> Inl e
      | Inr items \<Rightarrow>
          (case patch_loop float_text dry_run ts
                  \<lparr>table = t, updated = 0, missing = 0, skipped = 0\<rparr> items of
             Inl e \<Rightarrow> Inl e
           | Inr s \<Rightarrow> Inr (table s, updated s, missing s, skipped s)))"

section \<open>safe\_patch\_prebuilt\_db.py: the schema guard\<close>

text \<open>
  A row of \<^verbatim>\<open>PRAGMA table_info(tokens)\<close>; the code reads its fields 1 (name),
  3 (notnull) and 5 (pk). A database is the tokens table, if there is one, with its
  column declarations and its rows, and the \<^verbatim>\<open>user_version\<close> counter. No other
  table is modelled: the shadow table \<^verbatim>\<open>tokens_new\<close> lives inside one transaction.
\<close>

record col_info =
  col_name :: string
  col_notnull :: int
  col_pk :: int

record tokens_table =
  info :: "col_info list"
  rows :: tokens

record database =
  tokens_tbl :: "tokens_table option"
  user_version :: int

text \<open>
  \<^verbatim>\<open>PRAGMA user_version=N\<close>: the counter is a signed 32-bit field of the database
  header, and SQLite reads an \<open>N\<close> that does not fit 32 bits as 0.
\<close>

definition set_user_version :: "database \<Rightarrow> int \<Rightarrow> database" where
  "set_user_version db v =
     db\<lparr>user_version := (if - (2 ^ 31) \<le> v \<and> v < 2 ^ 31 then v else 0)\<rparr>"

definition REQUIRED_NOT_NULL :: "string list" where
  "REQUIRED_NOT_NULL = [''cgId'', ''symbol'', ''name'', ''updatedAt'']"

definition all_columns :: "string list" where
  "all_columns = [''cgId'', ''symbol'', ''name'', ''description'', ''imageUrl'', ''updatedAt'']"

text \<open>The columns that \<^verbatim>\<open>CREATE_TOKENS_SQL\<close> and the shadow table declare.\<close>

definition room_columns :: "col_info list" where
  "room_columns =
     [\<lparr>col_name = ''cgId'', col_notnull = 1, col_pk = 1\<rparr>,
      \<lparr>col_name = ''symbol'', col_notnull = 1, col_pk = 0\<rparr>,
      \<lparr>col_name = ''name'', col_notnull = 1, col_pk = 0\<rparr>,
      \<lparr>col_name = ''description'', col_notnull = 0, col_pk = 0\<rparr>,
      \<lparr>col_name = ''imageUrl'', col_notnull = 0, col_pk = 0\<rparr>,
      \<lparr>col_name = ''updatedAt'', col_notnull = 1, col_pk = 0\<rparr>]"

datatype reason =
  Reason_ok
  | Reason_table_missing
  | Reason_missing_columns "string list"
  | Reason_not_primary_key int
  | Reason_not_null_mismatch "string list"

definition has_tokens_table :: "database \<Rightarrow> bool" where
  "has_tokens_table db = (tokens_tbl db \<noteq> None)"

text \<open>\<^verbatim>\<open>cols = {r[1]: r for r in info}\<close>: a later row of the same name wins.\<close>

definition cols_of :: "col_info list \<Rightarrow> string \<rightharpoonup> col_info" where
  "cols_of ci = map_of (rev (map (\<lambda>r. (col_name r, r)) ci))"

definition schema_is_room_compatible :: "database \<Rightarrow> bool \<times> reason" where
  "schema_is_room_compatible db =
     (case tokens_tbl db of
        None \<Rightarrow> (False, Reason_table_missing)
      | Some tb \<Rightarrow>
          (let cols = cols_of (info tb);
               missing_cols = filter (\<lambda>c. cols c = None) all_columns
           in if missing_cols \<noteq> [] then (False, Reason_missing_columns missing_cols)
              else
                let bad_nn = filter (\<lambda>c. case cols c of None \<Rightarrow> False
                                              | Some r \<Rightarrow> col_notnull r \<noteq> 1) REQUIRED_NOT_NULL;
                    pk = (case cols ''cgId'' of None \<Rightarrow> 0 | Some r \<Rightarrow> col_pk r)
                in if pk \<noteq> 1 then (False, Reason_not_primary_key pk)
                   else if bad_nn \<noteq> [] then (False, Reason_not_null_mismatch bad_nn)
                   else (True, Reason_ok)))"

text \<open>
  The SELECT list of the copy:
  \<^verbatim>\<open>COALESCE(cgId,''), COALESCE(symbol,''), COALESCE(name,''), description, imageUrl, COALESCE(updatedAt,0)\<close>.
\<close>

definition copy_row :: "token_row \<Rightarrow> token_row" where
  "copy_row r =
     \<lparr>cgId = coalesce (cgId r) (Some []),
      symbol = coalesce (symbol r) (Some []),
      name = coalesce (name r) (Some []),
      description = description r,
      imageUrl = imageUrl r,
      updatedAt = coalesce (updatedAt r) (Some 0)\<rparr>"

text \<open>
  \<^verbatim>\<open>INSERT OR REPLACE\<close> into a table whose primary key is \<^verbatim>\<open>cgId\<close>: a row of the
  same key is deleted, the new row is added.
\<close>

definition insert_or_replace :: "tokens \<Rightarrow> token_row \<Rightarrow> tokens" where
  "insert_or_replace t r = filter (\<lambda>x. cgId x \<noteq> cgId r) t @ [r]"

text \<open>
  The rebuild: the shadow table is created empty, filled from the old rows in order, and
  renamed into place. The SELECT names the six columns, so a table that lacks one makes
  SQLite raise; the transaction is then never committed and the database stays as it was.
\<close>

definition rebuild_tokens_table_room_schema :: "database \<Rightarrow> error + database" where
  "rebuild_tokens_table_room_schema db =
     (case tokens_tbl db of
        None \<Rightarrow> Inl OperationalError
      | Some tb \<Rightarrow>
          if \<not> set all_columns \<subseteq> set (map col_name (info tb)) then Inl OperationalError
          else Inr (db\<lparr>tokens_tbl :=
                 Some \<lparr>info = room_columns,
                       rows = foldl insert_or_replace [] (map copy_row (rows tb))\<rparr>\<rparr>))"

definition ensure_schema :: "database \<Rightarrow> error + database" where
  "ensure_schema db =
     (if \<not> has_tokens_table db
      then Inr (db\<lparr>tokens_tbl := Some \<lparr>info = room_columns, rows = []\<rparr>\<rparr>)
      else if fst (schema_is_room_compatible db) then Inr db
      else rebuild_tokens_table_room_schema db)"

section \<open>safe\_patch\_prebuilt\_db.py: main\<close>

text \<open>
  The part of \<^verbatim>\<open>main\<close> after the backup: the schema guard, the patch files in order
  (each with the clock reading \<^verbatim>\<open>now_ts()\<close> of its call), the handling of
  \<^verbatim>\<open>user_version\<close>. The options are \<^verbatim>\<open>--dry-run\<close>, \<^verbatim>\<open>--set-user-version\<close> and
  \<^verbatim>\<open>--bump-user-version\<close>. The schema guard runs whether or not \<^verbatim>\<open>--dry-run\<close> is
  given.
\<close>

record patch_args =
  dry_run_opt :: bool
  set_user_version_opt :: "int option"
  bump_user_version_opt :: bool

fun apply_patch_files ::
  "(pyfloat \<Rightarrow> string option) \<Rightarrow> database \<Rightarrow> bool \<Rightarrow> (json \<times> int) list \<Rightarrow> nat \<times> nat \<times> nat
     \<Rightarrow> error + (database \<times> nat \<times> nat \<times> nat)" where
  "apply_patch_files float_text db dry [] totals = Inr (db, totals)"
| "apply_patch_files float_text db dry ((p, ts) # ps) (tu, tm, tsk) =
     (case tokens_tbl db of
        None \<Rightarrow> Inl OperationalError
      | Some tb \<Rightarrow>
          (case apply_patches float_text (rows tb) p dry ts of
             Inl e \<Rightarrow> Inl e
           | Inr (t', u, m, s) \<Rightarrow>
               apply_patch_files float_text (db\<lparr>tokens_tbl := Some (tb\<lparr>rows := t'\<rparr>)\<rparr>) dry ps
                 (tu + u, tm + m, tsk + s)))"

definition user_version_handling :: "patch_args \<Rightarrow> database \<Rightarrow> database" where
  "user_version_handling args db =
     (if \<not> dry_run_opt args then
        (case set_user_version_opt args of
           Some v \<Rightarrow> set_user_version db v
         | None \<Rightarrow>
             if bump_user_version_opt args then set_user_version db (user_version db + 1)
             else db)
      else db)"

definition safe_patch_main ::
  "(pyfloat \<Rightarrow> string option) \<Rightarrow> patch_args \<Rightarrow> database \<Rightarrow> (json \<times> int) list
     \<Rightarrow> error + (database \<times> nat \<times> nat \<times> nat)" where
  "safe_patch_main float_text args db files =
     (case ensure_schema db of
        Inl e \<Rightarrow> Inl e
      | Inr db1 \<Rightarrow>
          (case apply_patch_files float_text db1 (dry_run_opt args) files (0, 0, 0) of
             Inl e \<Rightarrow> Inl e
           | Inr (db2, totals) \<Rightarrow> Inr (user_version_handling args db2, totals)))"

section \<open>scripts/patch\_descriptions.py: main\<close>

text \<open>
  The input is the dict that \<^verbatim>\<open>load_json\<close> returns, identifier to stripped
  description (both of type \<^verbatim>\<open>str\<close>), in its order. The loop keeps the table and the
  counters \<^verbatim>\<open>matched\<close>, \<^verbatim>\<open>updated\<close> and \<^verbatim>\<open>skipped_already_has\<close>.
\<close>

record pd_state =
  pd_table :: tokens
  pd_matched :: nat
  pd_updated :: nat
  pd_skipped_already_has :: nat

text \<open>The WHERE clause of the UPDATE, with and without \<^verbatim>\<open>--overwrite\<close>.\<close>

definition pd_where :: "bool \<Rightarrow> string \<Rightarrow> token_row \<Rightarrow> bool" where
  "pd_where overwrite k r =
     (if overwrite then cgId r = Some k
      else cgId r = Some k \<and> (description r = None \<or> description r = Some []))"

definition pd_had :: "tokens \<Rightarrow> string \<Rightarrow> bool" where
  "pd_had t k = (\<exists>r \<in> set t. cgId r = Some k \<and> description r \<noteq> None \<and> description r \<noteq> Some [])"

text \<open>
  One iteration. The first SELECT binds the identifier and the UPDATE binds the
  description, which \<^verbatim>\<open>sqlite3\<close> refuses for a string with a lone surrogate.
\<close>

definition pd_one :: "bool \<Rightarrow> pd_state \<Rightarrow> string \<times> string \<Rightarrow> error + pd_state" where
  "pd_one overwrite s kv =
     (let cg_id = fst kv; desc = snd kv in
      if cg_id = [] \<or> desc = [] then Inr s
      else if has_surrogate cg_id then Inl UnicodeEncodeError
      else if \<not> exists_row (pd_table s) cg_id then Inr s
      else
        let s1 = s\<lparr>pd_matched := pd_matched s + 1\<rparr> in
        if \<not> overwrite \<and> pd_had (pd_table s1) cg_id
        then Inr (s1\<lparr>pd_skipped_already_has := pd_skipped_already_has s1 + 1\<rparr>)
        else if has_surrogate desc then Inl UnicodeEncodeError
        else
          let rowcount = length (filter (pd_where overwrite cg_id) (pd_table s1));
              t' = map (\<lambda>r. if pd_where overwrite cg_id r then r\<lparr>description := Some desc\<rparr> else r)
                     (pd_table s1)
          in if rowcount > 0 then Inr (s1\<lparr>pd_table := t', pd_updated := pd_updated s1 + 1\<rparr>)
             else Inr (s1\<lparr>pd_table := t'\<rparr>))"

fun pd_loop :: "bool \<Rightarrow> pd_state \<Rightarrow> (string \<times> string) list \<Rightarrow> error + pd_state" where
  "pd_loop overwrite s [] = Inr s"
| "pd_loop overwrite s (kv # kvs) =
     (case pd_one overwrite s kv of
        Inl e \<Rightarrow> Inl e
      | Inr s' \<Rightarrow> pd_loop overwrite s' kvs)"

text \<open>
  \<^verbatim>\<open>main\<close> returns early on an empty input, raises (after ROLLBACK) when there is
  no tokens table or when the loop raises, and otherwise commits the loop's table and
  the counter. The result is the database with the count \<^verbatim>\<open>updated\<close>.
\<close>

definition patch_descriptions_main ::
  "bool \<Rightarrow> bool \<Rightarrow> database \<Rightarrow> (string \<times> string) list \<Rightarrow> error + (database \<times> nat)" where
  "patch_descriptions_main overwrite bump db updates =
     (if updates = [] then Inr (db, 0)
      else
        let before_uv = user_version db in
        case tokens_tbl db of
          None \<Rightarrow> Inl RuntimeError
        | Some tb \<Rightarrow>
            (case pd_loop overwrite
                    \<lparr>pd_table = rows tb, pd_matched = 0, pd_updated = 0, pd_skipped_already_has = 0\<rparr>
                    updates of
               Inl e \<Rightarrow> Inl e
             | Inr s \<Rightarrow>
                 (let db1 = db\<lparr>tokens_tbl := Some (tb\<lparr>rows := pd_table s\<rparr>)\<rparr>;
                      db2 = (if bump \<and> pd_updated s > 0 then set_user_version db1 (before_uv + 1)
                             else db1)
                  in Inr (db2, pd_updated s))))"

section \<open>The builders: the work list\<close>

text \<open>
  \<^verbatim>\<open>list_ids_needing_enrich\<close> of \<^verbatim>\<open>build_prebuilt_db.py\<close>, and that of
  \<^verbatim>\<open>build_prebuilt_tokens.py\<close>, which takes \<^verbatim>\<open>skip_images\<close>. Both return
  \<^verbatim>\<open>row[0]\<close> of every selected row, which is \<open>None\<close> for a NULL identifier.
\<close>

definition list_ids_needing_enrich_db :: "tokens \<Rightarrow> string option list" where
  "list_ids_needing_enrich_db t =
     map cgId (filter (\<lambda>r. description r = None \<or> description r = Some []
                             \<or> imageUrl r = None \<or> imageUrl r = Some []) t)"

definition list_ids_needing_enrich_tokens :: "tokens \<Rightarrow> bool \<Rightarrow> string option list" where
  "list_ids_needing_enrich_tokens t skip_images =
     (if skip_images
      then map cgId (filter (\<lambda>r. description r = None \<or> description r = Some []) t)
      else map cgId (filter (\<lambda>r. (description r = None \<or> description r = Some [])
                                   \<or> (imageUrl r = None \<or> imageUrl r = Some [])) t))"

section \<open>build\_prebuilt\_tokens.py: enrich\_details\<close>

text \<open>
  \<^verbatim>\<open>_pick_image(img_obj)\<close>: \<^verbatim>\<open>None\<close> for a false argument, else
  \<^verbatim>\<open>img_obj.get("large") or img_obj.get("small") or img_obj.get("thumb")\<close>, which needs
  a dict.
\<close>

definition pick_image :: "json \<Rightarrow> error + json" where
  "pick_image img_obj =
     (if \<not> truthy img_obj then Inr JNull
      else case img_obj of
             JObj d \<Rightarrow> Inr (py_or (py_or (py_get d ''large'') (py_get d ''small'')) (py_get d ''thumb''))
           | _ \<Rightarrow> Inl AttributeError)"

text \<open>
  \<^verbatim>\<open>strip_html(s)\<close> returns a false \<open>s\<close> as it is, and otherwise takes the tags out
  with \<^verbatim>\<open>re.sub\<close> (which raises TypeError unless \<open>s\<close> is a string), unescapes and
  strips; what it makes of a non-empty string is the parameter \<open>clean\<close>.
\<close>

definition strip_html :: "(string \<Rightarrow> string) \<Rightarrow> json \<Rightarrow> error + json" where
  "strip_html clean s =
     (if \<not> truthy s then Inr s
      else case s of JStr x \<Rightarrow> Inr (JStr (clean x)) | _ \<Rightarrow> Inl TypeError)"

text \<open>
  The two values that one iteration computes from the response:
  \<^verbatim>\<open>data = request_json(...) or {}\<close>,
  \<^verbatim>\<open>desc_raw = ((data.get("description") or {}).get("en")) or None\<close>,
  \<^verbatim>\<open>desc = strip_html(desc_raw) if desc_raw else None\<close>, and
  \<^verbatim>\<open>img = _pick_image((data.get("image") or {}))\<close> unless \<^verbatim>\<open>skip_images\<close>.
\<close>

definition enrich_values :: "(string \<Rightarrow> string) \<Rightarrow> bool \<Rightarrow> json \<Rightarrow> error + (json \<times> json)" where
  "enrich_values clean skip_images resp =
     (case py_or resp (JObj []) of
        JObj data \<Rightarrow>
          (case py_or (py_get data ''description'') (JObj []) of
             JObj dd \<Rightarrow>
               (let desc_raw = py_or (py_get dd ''en'') JNull in
                case (if truthy desc_raw then strip_html clean desc_raw else Inr JNull) of
                  Inl e \<Rightarrow> Inl e
                | Inr desc \<Rightarrow>
                    if skip_images then Inr (desc, JNull)
                    else (case pick_image (py_or (py_get data ''image'') (JObj [])) of
                            Inl e \<Rightarrow> Inl e
                          | Inr img \<Rightarrow> Inr (desc, img)))
           | _ \<Rightarrow> Inl AttributeError)
      | _ \<Rightarrow> Inl AttributeError)"

text \<open>
  What one iteration hands to
  \<^verbatim>\<open>UPDATE tokens SET description=?, imageUrl=?, updatedAt=? WHERE cgId=?\<close>, as SQLite
  stores it: the request, the two values and the binding of the parameters can each
  raise, and the identifier (an element of the list that \<^verbatim>\<open>list_ids_needing_enrich\<close>
  returned, \<open>None\<close> for a NULL) is bound last. \<open>fetch\<close> is what \<^verbatim>\<open>request_json\<close>
  does for the URL of an identifier.
\<close>

definition enrich_params ::
  "(string \<Rightarrow> string) \<Rightarrow> (pyfloat \<Rightarrow> string option) \<Rightarrow> (string option \<Rightarrow> error + json)
     \<Rightarrow> bool \<Rightarrow> string option \<Rightarrow> error + (string option \<times> string option)" where
  "enrich_params clean float_text fetch skip_images cid =
     (case fetch cid of
        Inl e \<Rightarrow> Inl e
      | Inr resp \<Rightarrow>
          (case enrich_values clean skip_images resp of
             Inl e \<Rightarrow> Inl e
           | Inr (desc, img) \<Rightarrow>
               (case bind_text float_text desc of
                  Inl e \<Rightarrow> Inl e
                | Inr p_desc \<Rightarrow>
                    (case bind_text float_text img of
                       Inl e \<Rightarrow> Inl e
                     | Inr p_img \<Rightarrow>
                         if (case cid of None \<Rightarrow> False | Some k \<Rightarrow> has_surrogate k)
                         then Inl UnicodeEncodeError
                         else Inr (p_desc, p_img)))))"

text \<open>
  One iteration of \<^verbatim>\<open>enrich_details\<close>: every exception is caught and logged, and the
  table is then as before. \<^verbatim>\<open>WHERE cgId=?\<close> holds for no row when the parameter is
  NULL.
\<close>

definition enrich_one_tokens ::
  "(string \<Rightarrow> string) \<Rightarrow> (pyfloat \<Rightarrow> string option) \<Rightarrow> (string option \<Rightarrow> error + json)
     \<Rightarrow> bool \<Rightarrow> int \<Rightarrow> tokens \<Rightarrow> string option \<Rightarrow> tokens" where
  "enrich_one_tokens clean float_text fetch skip_images now t cid =
     (case enrich_params clean float_text fetch skip_images cid of
        Inl e \<Rightarrow> t
      | Inr (p_desc, p_img) \<Rightarrow>
          map (\<lambda>r. if cid \<noteq> None \<and> cgId r = cid
                    then r\<lparr>description := p_desc, imageUrl := p_img, updatedAt := Some now\<rparr>
                    else r) t)"

definition enrich_details_tokens ::
  "(string \<Rightarrow> string) \<Rightarrow> (pyfloat \<Rightarrow> string option) \<Rightarrow> (string option \<Rightarrow> error + json)
     \<Rightarrow> tokens \<Rightarrow> string option list \<Rightarrow> bool \<Rightarrow> int \<Rightarrow> tokens" where
  "enrich_details_tokens clean float_text fetch t ids skip_images now =
     foldl (enrich_one_tokens clean float_text fetch skip_images now) t ids"

section \<open>The builders: request\_json\<close>

text \<open>
  The two copies of \<^verbatim>\<open>request_json\<close> differ in \<^verbatim>\<open>MAX_BACKOFF_SEC\<close> and in what
  happens when \<^verbatim>\<open>float(retry_after)\<close> raises. Seconds are real numbers here: the
  deterministic part of the backoff is exact in binary floating point, and the rounding
  of the jitter product is not modelled.
\<close>

datatype variant = Build_prebuilt_db | Build_prebuilt_tokens

definition MAX_RETRIES :: nat where
  "MAX_RETRIES = 6"

definition BASE_BACKOFF_SEC :: real where
  "BASE_BACKOFF_SEC = 2"

definition MAX_BACKOFF_SEC :: "variant \<Rightarrow> real" where
  "MAX_BACKOFF_SEC v = (case v of Build_prebuilt_db \<Rightarrow> 90 | Build_prebuilt_tokens \<Rightarrow> 60)"

text \<open>
  The \<^verbatim>\<open>Retry-After\<close> header of a response: absent, the empty string (false for
  \<^verbatim>\<open>if retry_after\<close>), a text that \<^verbatim>\<open>float\<close> reads as a finite number, or a text
  on which \<^verbatim>\<open>float\<close> raises ValueError (an HTTP date, for instance). A text that
  \<^verbatim>\<open>float\<close> reads as \<^verbatim>\<open>inf\<close> or \<^verbatim>\<open>nan\<close> has no constructor here.
\<close>

datatype retry_after = No_header | Header_empty | Header_number real | Header_other

text \<open>
  What one call of \<^verbatim>\<open>SESSION.get\<close> does: it returns a response (status code, header,
  and the JSON body if the body parses) or raises one of the two caught exceptions.
\<close>

datatype 'a response =
  Response nat retry_after "'a option"
  | Raises_Timeout
  | Raises_ConnectionError

definition backoff :: "variant \<Rightarrow> nat \<Rightarrow> real" where
  "backoff v attempt = min (MAX_BACKOFF_SEC v) (BASE_BACKOFF_SEC * 2 ^ (attempt - 1))"

text \<open>
  The wait of the 429/5xx branch; \<open>u\<close> is the value of \<^verbatim>\<open>random.random()\<close>.
\<close>

definition status_wait :: "variant \<Rightarrow> retry_after \<Rightarrow> nat \<Rightarrow> real \<Rightarrow> error + real" where
  "status_wait v ra attempt u =
     (case ra of
        No_header \<Rightarrow> Inr (backoff v attempt + u * 0.4)
      | Header_empty \<Rightarrow> Inr (backoff v attempt + u * 0.4)
      | Header_number x \<Rightarrow> Inr x
      | Header_other \<Rightarrow>
          (case v of Build_prebuilt_db \<Rightarrow> Inl ValueError | Build_prebuilt_tokens \<Rightarrow> Inr 10))"

text \<open>
  The result of a call: what is returned or raised, the waits slept between the
  attempts, and the number of attempts made.
\<close>

record 'a fetched =
  outcome :: "error + 'a"
  sleeps :: "real list"
  attempts :: nat

text \<open>
  The loop. \<open>env k\<close> is what the \<open>k\<close>-th call of \<^verbatim>\<open>SESSION.get\<close> does and \<open>rnd k\<close>
  the random number drawn in that iteration; the argument \<open>attempt\<close> is the counter
  before \<^verbatim>\<open>attempt += 1\<close>. \<^verbatim>\<open>time.sleep\<close> raises ValueError on a negative wait.
  The spacing of \<^verbatim>\<open>_throttle\<close> only delays the call and is left out.
\<close>

function request_loop ::
  "variant \<Rightarrow> (nat \<Rightarrow> 'a response) \<Rightarrow> (nat \<Rightarrow> real) \<Rightarrow> nat \<Rightarrow> real list \<Rightarrow> 'a fetched" where
  "request_loop v env rnd attempt slept =
     (case env (Suc attempt) of
        Response status ra body \<Rightarrow>
          if status = 429 \<or> (500 \<le> status \<and> status < 600) then
            (case status_wait v ra (Suc attempt) (rnd (Suc attempt)) of
               Inl e \<Rightarrow> \<lparr>outcome = Inl e, sleeps = slept, attempts = Suc attempt\<rparr>
             | Inr wait \<Rightarrow>
                 if Suc attempt \<le> MAX_RETRIES then
                   (if wait < 0
                    then \<lparr>outcome = Inl ValueError, sleeps = slept, attempts = Suc attempt\<rparr>
                    else request_loop v env rnd (Suc attempt) (slept @ [wait]))
                 else \<lparr>outcome = Inl (HTTPError status), sleeps = slept, attempts = Suc attempt\<rparr>)
          else if 400 \<le> status \<and> status < 600
          then \<lparr>outcome = Inl (HTTPError status), sleeps = slept, attempts = Suc attempt\<rparr>
          else (case body of
                  None \<Rightarrow> \<lparr>outcome = Inl ValueError, sleeps = slept, attempts = Suc attempt\<rparr>
                | Some b \<Rightarrow> \<lparr>outcome = Inr b, sleeps = slept, attempts = Suc attempt\<rparr>)
      | Raises_Timeout \<Rightarrow>
          if Suc attempt \<le> MAX_RETRIES
          then request_loop v env rnd (Suc attempt)
                 (slept @ [backoff v (Suc attempt) + rnd (Suc attempt) * 0.4])
          else \<lparr>outcome = Inl Timeout, sleeps = slept, attempts = Suc attempt\<rparr>
      | Raises_ConnectionError \<Rightarrow>
          if Suc attempt \<le> MAX_RETRIES
          then request_loop v env rnd (Suc attempt)
                 (slept @ [backoff v (Suc attempt) + rnd (Suc attempt) * 0.4])
          else \<lparr>outcome = Inl ConnectionError, sleeps = slept, attempts = Suc attempt\<rparr>)"
  by pat_completeness auto
termination
  by (relation "measure (\<lambda>(v, env, rnd, attempt, slept). MAX_RETRIES - attempt)") auto

definition request_json :: "variant \<Rightarrow> (nat \<Rightarrow> 'a response) \<Rightarrow> (nat \<Rightarrow> real) \<Rightarrow> 'a fetched" where
  "request_json v env rnd = request_loop v env rnd 0 []"

section \<open>The counts of apply\_patches\<close>

text \<open>
  What the specification says of a batch, written without the code's loop. A batch is a
  list of entries (bare or under the key \<^verbatim>\<open>items\<close>) or a mapping from identifier to
  fields. An entry has an identifier, a description and an image. The identifier of a
  listed entry is its \<^verbatim>\<open>cgId\<close>, or its \<^verbatim>\<open>id\<close> when that is missing or empty, without
  the surrounding whitespace; the identifier of a mapped entry is its key. A field is
  empty when it is null (or absent) or the empty string.
\<close>

type_synonym spec_entry = "string \<times> json \<times> json"

definition spec_identifier :: "(string \<times> json) list \<Rightarrow> string" where
  "spec_identifier it =
     (case py_or (py_or (py_get it ''cgId'') (py_get it ''id'')) (JStr []) of
        JStr s \<Rightarrow> strip s
      | _ \<Rightarrow> [])"

definition spec_list_entry :: "json \<Rightarrow> spec_entry" where
  "spec_list_entry e =
     (case e of
        JObj it \<Rightarrow> (spec_identifier it, py_get it ''description'', py_get it ''imageUrl'')
      | _ \<Rightarrow> ([], JNull, JNull))"

fun spec_map_entries :: "(string \<times> json) list \<Rightarrow> spec_entry list" where
  "spec_map_entries [] = []"
| "spec_map_entries ((k, JObj f) # kvs) =
     (strip k, py_get f ''description'', py_get f ''imageUrl'') # spec_map_entries kvs"
| "spec_map_entries ((k, _) # kvs) = spec_map_entries kvs"

definition spec_entries :: "json \<Rightarrow> spec_entry list" where
  "spec_entries p =
     (case p of
        JArr items \<Rightarrow> map spec_list_entry items
      | JObj kvs \<Rightarrow>
          (case map_of kvs ''items'' of
             Some (JArr items) \<Rightarrow> map spec_list_entry items
           | _ \<Rightarrow> spec_map_entries kvs)
      | _ \<Rightarrow> [])"

text \<open>
  The three outcomes of an entry in the words of the specification: an entry whose
  identifier is not in the store is missing, an entry without identifier or with both
  fields empty is skipped, every other entry is updated.
\<close>

datatype entry_outcome = Updated | MissingInStore | Skipped

definition empty_field :: "json \<Rightarrow> bool" where
  "empty_field v = (v = JNull \<or> v = JStr [])"

definition spec_outcome :: "tokens \<Rightarrow> spec_entry \<Rightarrow> entry_outcome" where
  "spec_outcome t e =
     (case e of (k, desc, img) \<Rightarrow>
        if k \<noteq> [] \<and> \<not> exists_row t k then MissingInStore
        else if k = [] \<or> (empty_field desc \<and> empty_field img) then Skipped
        else Updated)"

definition count_outcome :: "entry_outcome \<Rightarrow> tokens \<Rightarrow> spec_entry list \<Rightarrow> nat" where
  "count_outcome oc t es = length (filter (\<lambda>e. spec_outcome t e = oc) es)"

text \<open>
  The batches on which \<^verbatim>\<open>apply_patches\<close> does not raise for the shape of an entry:
  every entry is an object, the value taken for its identifier is a string, and what
  the statements bind (the identifier, the description and the image unless they are
  false in Python) is a value \<^verbatim>\<open>sqlite3\<close> accepts. In a mapping, the fields objects
  carry no identifier of their own.
\<close>

definition bindable :: "json \<Rightarrow> bool" where
  "bindable v =
     (case v of
        JInt n \<Rightarrow> - (2 ^ 63) \<le> n \<and> n < 2 ^ 63
      | JStr s \<Rightarrow> \<not> has_surrogate s
      | JArr xs \<Rightarrow> False
      | JObj kvs \<Rightarrow> False
      | _ \<Rightarrow> True)"

definition wf_entry :: "json \<Rightarrow> bool" where
  "wf_entry e =
     (case e of
        JObj it \<Rightarrow>
          (case py_or (py_or (py_get it ''cgId'') (py_get it ''id'')) (JStr []) of
             JStr s \<Rightarrow> \<not> has_surrogate (strip s)
           | _ \<Rightarrow> False)
          \<and> bindable (none_if_falsy (py_get it ''description''))
          \<and> bindable (none_if_falsy (py_get it ''imageUrl''))
      | _ \<Rightarrow> False)"

fun wf_map_pairs :: "(string \<times> json) list \<Rightarrow> bool" where
  "wf_map_pairs [] = True"
| "wf_map_pairs ((k, JObj f) # kvs) =
     (\<not> has_surrogate (strip k) \<and> map_of f ''cgId'' = None \<and> map_of f ''id'' = None
      \<and> bindable (none_if_falsy (py_get f ''description''))
      \<and> bindable (none_if_falsy (py_get f ''imageUrl''))
      \<and> wf_map_pairs kvs)"
| "wf_map_pairs ((k, _) # kvs) = wf_map_pairs kvs"

definition wf_patch :: "json \<Rightarrow> bool" where
  "wf_patch p =
     (case p of
        JArr items \<Rightarrow> list_all wf_entry items
      | JObj kvs \<Rightarrow>
          (case map_of kvs ''items'' of
             Some (JArr items) \<Rightarrow> list_all wf_entry items
           | _ \<Rightarrow> wf_map_pairs kvs)
      | _ \<Rightarrow> False)"

text \<open>
  A store of seven rows, a batch of ten entries (one identifier wrapped in a no-break
  space and an em space) and a mapping to run the definitions on. No example has a
  float, so any text will do for SQLite's rendering of floats.
\<close>

definition example_row :: "string \<Rightarrow> string option \<Rightarrow> int \<Rightarrow> token_row" where
  "example_row k d u =
     \<lparr>cgId = Some k, symbol = Some k, name = Some k, description = d, imageUrl = None,
      updatedAt = Some u\<rparr>"

definition example_store :: tokens where
  "example_store =
     [example_row ''a'' None 0, example_row ''b'' None 0, example_row ''c'' (Some ''old'') 5,
      example_row ''d'' None 0, example_row ''e'' None 0, example_row ''f'' None 0,
      example_row ''g'' None 0]"

definition example_float_text :: "pyfloat \<Rightarrow> string option" where
  "example_float_text = (\<lambda>x. Some ''0.5'')"

definition example_batch :: "json list" where
  "example_batch =
     [JObj [(''cgId'', JStr ''x''), (''description'', JStr ''t'')],
      JObj [(''cgId'', JStr ''a''), (''description'', JStr ''t'')],
      JObj [(''id'', JStr ([CHR 0xC2, CHR 0xA0] @ ''b'' @ [CHR 0xE2, CHR 0x80, CHR 0x83])),
            (''imageUrl'', JStr ''u'')],
      JObj [(''cgId'', JStr ''y'')],
      JObj [(''cgId'', JStr ''c''), (''description'', JStr []), (''imageUrl'', JNull)],
      JObj [(''cgId'', JStr ''c''), (''description'', JStr ''new'')],
      JObj [(''cgId'', JStr ''d'')],
      JObj [(''cgId'', JStr ''z''), (''description'', JStr ''t'')],
      JObj [(''cgId'', JStr ''e''), (''description'', JStr ''t''), (''imageUrl'', JStr ''u'')],
      JObj [(''cgId'', JStr ''f''), (''description'', JStr ''t'')]]"

definition example_mapping :: json where
  "example_mapping =
     JObj [(''a'', JObj [(''description'', JStr ''t'')]),
           (''q'', JObj [(''imageUrl'', JStr ''u'')]),
           (''note'', JStr ''not an entry''),
           (''g'', JObj [])]"

lemmas example_defs =
  example_batch_def example_mapping_def example_store_def example_row_def
  spec_entries_def spec_list_entry_def spec_identifier_def py_get_def py_or_def
  strip_def lstrip_any.simps py_whitespace_def exists_row_def empty_field_def

lemma strip_examples:
  "strip '' b '' = ''b''"
  "strip ([CHR 0xC2, CHR 0xA0] @ ''btc'' @ [CHR 0xE2, CHR 0x80, CHR 0x83, CHR 0x0A]) = ''btc''"
  "strip [] = []"
  by (simp_all add: strip_def lstrip_any.simps py_whitespace_def)

text \<open>No iteration changes an identifier, so the outcome of an entry is the same before and after.\<close>

lemma patch_update_cgId: "cgId (patch_update d i ts k r) = cgId r"
  by (simp add: patch_update_def)

lemma exists_row_cong:
  assumes "map cgId t' = map cgId t"
  shows "exists_row t' k = exists_row t k"
  unfolding exists_row_def using assms by (simp only:)

lemma spec_outcome_cong:
  assumes "map cgId t' = map cgId t"
  shows "spec_outcome t' e = spec_outcome t e"
  using exists_row_cong [OF assms] by (simp add: spec_outcome_def split: prod.splits)

lemma count_outcome_cong:
  assumes "map cgId t' = map cgId t"
  shows "count_outcome oc t' es = count_outcome oc t es"
  unfolding count_outcome_def using spec_outcome_cong [OF assms] by simp

lemma bindable_bind: "bindable v \<Longrightarrow> \<exists>x. bind_text rt v = Inr x"
  by (cases v) (simp_all add: bindable_def bind_text_def)

text \<open>One iteration on a well-formed entry returns, and counts the entry as the specification does.\<close>

lemma patch_one_wf:
  assumes "wf_entry e"
  shows "\<exists>s'. patch_one rt dry ts s e = Inr s'
           \<and> map cgId (table s') = map cgId (table s)
           \<and> updated s' = updated s + (if spec_outcome (table s) (spec_list_entry e) = Updated then 1 else 0)
           \<and> missing s' = missing s + (if spec_outcome (table s) (spec_list_entry e) = MissingInStore then 1 else 0)
           \<and> skipped s' = skipped s + (if spec_outcome (table s) (spec_list_entry e) = Skipped then 1 else 0)"
proof -
  from assms obtain it where e: "e = JObj it"
    by (cases e) (simp_all add: wf_entry_def)
  from assms e obtain s0
    where sel: "py_or (py_or (py_get it ''cgId'') (py_get it ''id'')) (JStr []) = JStr s0"
      and ns: "\<not> has_surrogate (strip s0)"
    by (auto simp: wf_entry_def split: json.splits)
  from assms e have "bindable (none_if_falsy (py_get it ''description''))"
    and "bindable (none_if_falsy (py_get it ''imageUrl''))"
    by (simp_all add: wf_entry_def)
  then obtain d i
    where d: "bind_text rt (none_if_falsy (py_get it ''description'')) = Inr d"
      and i: "bind_text rt (none_if_falsy (py_get it ''imageUrl'')) = Inr i"
    using bindable_bind by blast
  show ?thesis
    by (simp add: e patch_one_def entry_cgId_def sel ns d i spec_outcome_def spec_list_entry_def
        spec_identifier_def empty_field_def Let_def patch_update_cgId comp_def)
qed

lemma patch_loop_wf:
  assumes "list_all wf_entry items"
  shows "\<exists>s'. patch_loop rt dry ts s items = Inr s'
           \<and> map cgId (table s') = map cgId (table s)
           \<and> updated s' = updated s + count_outcome Updated (table s) (map spec_list_entry items)
           \<and> missing s' = missing s + count_outcome MissingInStore (table s) (map spec_list_entry items)
           \<and> skipped s' = skipped s + count_outcome Skipped (table s) (map spec_list_entry items)"
  using assms
proof (induction items arbitrary: s)
  case Nil
  show ?case by (simp add: count_outcome_def)
next
  case (Cons e items)
  from Cons.prems have e: "wf_entry e" and rest: "list_all wf_entry items" by simp_all
  from patch_one_wf [OF e, of rt dry ts s] obtain s1
    where one: "patch_one rt dry ts s e = Inr s1"
      and ids1: "map cgId (table s1) = map cgId (table s)"
      and u1: "updated s1 = updated s + (if spec_outcome (table s) (spec_list_entry e) = Updated then 1 else 0)"
      and m1: "missing s1 = missing s + (if spec_outcome (table s) (spec_list_entry e) = MissingInStore then 1 else 0)"
      and k1: "skipped s1 = skipped s + (if spec_outcome (table s) (spec_list_entry e) = Skipped then 1 else 0)"
    by blast
  from Cons.IH [OF rest, of s1] obtain s2
    where loop: "patch_loop rt dry ts s1 items = Inr s2"
      and ids2: "map cgId (table s2) = map cgId (table s1)"
      and u2: "updated s2 = updated s1 + count_outcome Updated (table s1) (map spec_list_entry items)"
      and m2: "missing s2 = missing s1 + count_outcome MissingInStore (table s1) (map spec_list_entry items)"
      and k2: "skipped s2 = skipped s1 + count_outcome Skipped (table s1) (map spec_list_entry items)"
    by blast
  have same: "count_outcome oc (table s1) es = count_outcome oc (table s) es" for oc es
    by (rule count_outcome_cong [OF ids1])
  have "patch_loop rt dry ts s (e # items) = Inr s2"
    by (simp add: one loop)
  moreover have "map cgId (table s2) = map cgId (table s)"
    using ids1 ids2 by simp
  moreover have "updated s2 = updated s + count_outcome Updated (table s) (map spec_list_entry (e # items))"
    using u1 u2 by (simp add: same) (simp add: count_outcome_def)
  moreover have "missing s2 = missing s + count_outcome MissingInStore (table s) (map spec_list_entry (e # items))"
    using m1 m2 by (simp add: same) (simp add: count_outcome_def)
  moreover have "skipped s2 = skipped s + count_outcome Skipped (table s) (map spec_list_entry (e # items))"
    using k1 k2 by (simp add: same) (simp add: count_outcome_def)
  ultimately show ?case by blast
qed

text \<open>The code's list of a well-formed batch holds the entries of the specification.\<close>

lemma py_get_append:
  "py_get (f @ g) k = (case map_of f k of None \<Rightarrow> py_get g k | Some v \<Rightarrow> v)"
  by (simp add: py_get_def map_add_def split: option.splits)

lemma strip_Nil: "strip [] = []"
  by (simp add: strip_def lstrip_any.simps py_whitespace_def)

lemma map_form_entry_wf:
  assumes "map_of f ''cgId'' = None" and "map_of f ''id'' = None"
    and "\<not> has_surrogate (strip k)"
    and "bindable (none_if_falsy (py_get f ''description''))"
    and "bindable (none_if_falsy (py_get f ''imageUrl''))"
  shows "wf_entry (map_form_entry k f)
         \<and> spec_list_entry (map_form_entry k f)
             = (strip k, py_get f ''description'', py_get f ''imageUrl'')"
proof -
  have c: "py_get (f @ [(''cgId'', JStr k)]) ''cgId'' = JStr k"
    and i: "py_get (f @ [(''cgId'', JStr k)]) ''id'' = JNull"
    using assms(1,2) by (simp_all add: py_get_append) (simp_all add: py_get_def)
  have d: "py_get (f @ [(''cgId'', JStr k)]) ''description'' = py_get f ''description''"
    and g: "py_get (f @ [(''cgId'', JStr k)]) ''imageUrl'' = py_get f ''imageUrl''"
    by (simp_all add: py_get_append) (simp_all add: py_get_def split: option.splits)
  have sel: "py_or (py_or (JStr k) JNull) (JStr []) = JStr k"
    by (cases "k = []") (simp_all add: py_or_def)
  show ?thesis
    using assms(3-5)
    by (simp add: map_form_entry_def wf_entry_def spec_list_entry_def spec_identifier_def c i d g sel)
qed

lemma map_form_items_wf:
  "wf_map_pairs kvs \<Longrightarrow>
   list_all wf_entry (map_form_items kvs)
   \<and> map spec_list_entry (map_form_items kvs) = spec_map_entries kvs"
  by (induction kvs rule: map_form_items.induct) (simp_all add: map_form_entry_wf)

lemma patch_items_wf:
  assumes "wf_patch p"
  shows "\<exists>items. patch_items p = Inr items \<and> list_all wf_entry items
           \<and> map spec_list_entry items = spec_entries p"
  using assms map_form_items_wf
  by (auto simp: wf_patch_def patch_items_def spec_entries_def split: json.splits option.splits)

lemma count_outcome_total:
  "count_outcome Updated t es + count_outcome MissingInStore t es + count_outcome Skipped t es
     = length es"
  unfolding count_outcome_def
proof (induction es)
  case Nil
  show ?case by simp
next
  case (Cons e es)
  then show ?case by (cases "spec_outcome t e") simp_all
qed

lemma apply_patches_wf:
  assumes "wf_patch p"
  shows "\<exists>t'. apply_patches rt t p dry ts =
            Inr (t', count_outcome Updated t (spec_entries p),
                 count_outcome MissingInStore t (spec_entries p),
                 count_outcome Skipped t (spec_entries p))
         \<and> map cgId t' = map cgId t"
proof -
  from patch_items_wf [OF assms] obtain items
    where items: "patch_items p = Inr items" and wf: "list_all wf_entry items"
      and spec: "map spec_list_entry items = spec_entries p"
    by blast
  from patch_loop_wf [OF wf, of rt dry ts "\<lparr>table = t, updated = 0, missing = 0, skipped = 0\<rparr>"]
  show ?thesis
    by (auto simp: apply_patches_def items spec)
qed

text \<open>
  Claim C6 as stated fails: an entry that is not an object, or whose identifier is not
  a string, has no identifier the code could use, and \<^verbatim>\<open>apply_patches\<close> raises
  AttributeError on it instead of counting it skipped.
\<close>

theorem patch_counts_malformed_counterexample:
  "apply_patches example_float_text example_store (JArr [JInt 5]) True 9 = Inl AttributeError
   \<and> apply_patches example_float_text example_store (JArr [JObj [(''cgId'', JInt 7)]]) True 9
       = Inl AttributeError
   \<and> spec_outcome example_store (spec_list_entry (JInt 5)) = Skipped"
  by (simp add: apply_patches_def patch_items_def patch_one_def entry_cgId_def py_get_def py_or_def
      spec_outcome_def spec_list_entry_def)

text \<open>
  Claim C6, amended. For every batch (a list, a list under \<^verbatim>\<open>items\<close>, or a mapping from
  identifier to fields objects without identifier fields) whose entries are objects with
  a string for identifier and with values \<^verbatim>\<open>sqlite3\<close> can bind, \<^verbatim>\<open>apply_patches\<close>
  returns, in a dry run and in a real one, the triple (number of entries updated, number
  missing in the store, number skipped) under the specification's classification of the
  entries, and the three counts add up to the number of entries.
\<close>

theorem patch_counts_partition:
  assumes "wf_patch p"
  shows "\<exists>t'. apply_patches float_text t p dry_run ts =
            Inr (t', count_outcome Updated t (spec_entries p),
                 count_outcome MissingInStore t (spec_entries p),
                 count_outcome Skipped t (spec_entries p))
         \<and> count_outcome Updated t (spec_entries p) + count_outcome MissingInStore t (spec_entries p)
             + count_outcome Skipped t (spec_entries p) = length (spec_entries p)"
  using apply_patches_wf [OF assms, of float_text t dry_run ts] by (auto simp: count_outcome_total)

text \<open>
  The instance of the specification: ten entries against a store of seven rows, three
  identifiers absent, two entries with both fields empty, five fills; and a mapping with
  one fill, one absent identifier, one entry without fields and one value that is no
  entry.
\<close>

lemma example_wf: "wf_patch (JArr example_batch)" "wf_patch example_mapping"
  by (simp_all add: wf_patch_def wf_entry_def bindable_def none_if_falsy_def example_batch_def
      example_mapping_def py_get_def py_or_def strip_def lstrip_any.simps py_whitespace_def)

lemma example_counts:
  "count_outcome Updated example_store (spec_entries (JArr example_batch)) = 5"
  "count_outcome MissingInStore example_store (spec_entries (JArr example_batch)) = 3"
  "count_outcome Skipped example_store (spec_entries (JArr example_batch)) = 2"
  "count_outcome Updated example_store (spec_entries example_mapping) = 1"
  "count_outcome MissingInStore example_store (spec_entries example_mapping) = 1"
  "count_outcome Skipped example_store (spec_entries example_mapping) = 1"
  by (simp_all add: count_outcome_def spec_outcome_def example_defs)

theorem patch_counts_partition_witness:
  "wf_patch (JArr example_batch) \<and> wf_patch example_mapping
   \<and> length example_store = 7 \<and> length example_batch = 10
   \<and> (\<exists>t'. apply_patches example_float_text example_store (JArr example_batch) False 9
             = Inr (t', 5, 3, 2))
   \<and> (\<exists>t'. apply_patches example_float_text example_store example_mapping False 9
             = Inr (t', 1, 1, 1))"
proof -
  have sizes: "length example_store = 7" "length example_batch = 10"
    by (simp_all add: example_store_def example_batch_def)
  from patch_counts_partition [OF example_wf(1), of example_float_text example_store False 9]
  have a: "\<exists>t'. apply_patches example_float_text example_store (JArr example_batch) False 9
             = Inr (t', 5, 3, 2)"
    by (simp only: example_counts) blast
  from patch_counts_partition [OF example_wf(2), of example_float_text example_store False 9]
  have b: "\<exists>t'. apply_patches example_float_text example_store example_mapping False 9
             = Inr (t', 1, 1, 1)"
    by (simp only: example_counts) blast
  from example_wf sizes a b show ?thesis by blast
qed

section \<open>What a dry run changes\<close>













definition example_db :: database where
  "example_db = \<lparr>tokens_tbl = Some \<lparr>info = room_columns, rows = example_store\<rparr>, user_version = 3\<rparr>"



lemma strip_letter: "strip ''a'' = ''a''" "strip ''x'' = ''x''"
  by (simp_all add: strip_def lstrip_any.simps py_whitespace_def)






lemma example_db_ok: "ensure_schema example_db = Inr example_db"
  by (simp add: ensure_schema_def has_tokens_table_def schema_is_room_compatible_def
      example_db_def room_columns_def cols_of_def all_columns_def REQUIRED_NOT_NULL_def)


section \<open>The work list\<close>

text \<open>The identifiers whose description is blank, and those with a blank description or image.\<close>

definition ids_missing_description :: "tokens \<Rightarrow> string option set" where
  "ids_missing_description t = cgId ` {r. r \<in> set t \<and> is_blank (description r)}"

definition ids_incomplete :: "tokens \<Rightarrow> string option set" where
  "ids_incomplete t = cgId ` {r. r \<in> set t \<and> (is_blank (description r) \<or> is_blank (imageUrl r))}"

lemma is_blank_iff: "is_blank v \<longleftrightarrow> v = None \<or> v = Some []"
  by (cases v) (simp_all add: is_blank_def)

text \<open>
  One row with a description and no image: incomplete, and not selected when
  \<^verbatim>\<open>skip_images\<close> is set.
\<close>

definition described_row :: token_row where
  "described_row = example_row ''c'' (Some ''old'') 5"

text \<open>
  Claim C9 as stated fails for \<^verbatim>\<open>build_prebuilt_tokens.py\<close> with
  \<^verbatim>\<open>skip_images\<close>: the row's image is empty, and its identifier is not returned.
\<close>

theorem list_ids_skip_images_counterexample:
  "cgId described_row = Some ''c'' \<and> is_blank (imageUrl described_row)
   \<and> list_ids_needing_enrich_tokens [described_row] True = []"
  by (simp add: described_row_def example_row_def is_blank_def list_ids_needing_enrich_tokens_def)

text \<open>
  Claim C9, amended. \<^verbatim>\<open>list_ids_needing_enrich\<close> of \<^verbatim>\<open>build_prebuilt_db.py\<close>, and
  that of \<^verbatim>\<open>build_prebuilt_tokens.py\<close> without \<^verbatim>\<open>skip_images\<close>, return exactly the
  identifiers of the rows whose description or image is NULL or empty; with
  \<^verbatim>\<open>skip_images\<close> the latter returns exactly the identifiers of the rows whose
  description is NULL or empty.
\<close>

theorem list_ids_needing_enrich_exact:
  "set (list_ids_needing_enrich_db t) = ids_incomplete t
   \<and> set (list_ids_needing_enrich_tokens t False) = ids_incomplete t
   \<and> set (list_ids_needing_enrich_tokens t True) = ids_missing_description t"
  by (auto simp: list_ids_needing_enrich_db_def list_ids_needing_enrich_tokens_def
      ids_incomplete_def ids_missing_description_def is_blank_iff)

theorem list_ids_needing_enrich_exact_witness:
  "list_ids_needing_enrich_db example_store
     = [Some ''a'', Some ''b'', Some ''c'', Some ''d'', Some ''e'', Some ''f'', Some ''g'']
   \<and> ids_incomplete example_store
     = {Some ''a'', Some ''b'', Some ''c'', Some ''d'', Some ''e'', Some ''f'', Some ''g''}
   \<and> list_ids_needing_enrich_tokens example_store True
     = [Some ''a'', Some ''b'', Some ''d'', Some ''e'', Some ''f'', Some ''g'']
   \<and> ids_missing_description example_store
     = {Some ''a'', Some ''b'', Some ''d'', Some ''e'', Some ''f'', Some ''g''}"
proof -
  have db: "list_ids_needing_enrich_db example_store
     = [Some ''a'', Some ''b'', Some ''c'', Some ''d'', Some ''e'', Some ''f'', Some ''g'']"
    by (simp add: list_ids_needing_enrich_db_def example_store_def example_row_def)
  have tk: "list_ids_needing_enrich_tokens example_store True
     = [Some ''a'', Some ''b'', Some ''d'', Some ''e'', Some ''f'', Some ''g'']"
    by (simp add: list_ids_needing_enrich_tokens_def example_store_def example_row_def)
  from list_ids_needing_enrich_exact [of example_store]
  have "ids_incomplete example_store = set (list_ids_needing_enrich_db example_store)"
    and "ids_missing_description example_store = set (list_ids_needing_enrich_tokens example_store True)"
    by simp_all
  then show ?thesis by (simp only: db tk) simp
qed

section \<open>The retry loop\<close>

text \<open>
  An upstream that answers every call with status 429 and no \<^verbatim>\<open>Retry-After\<close> header,
  one that answers 429 with an HTTP date in the header, and a random source that always
  draws one half.
\<close>

definition always_429 :: "nat \<Rightarrow> unit response" where
  "always_429 = (\<lambda>j. Response 429 No_header None)"

definition always_429_http_date :: "nat \<Rightarrow> unit response" where
  "always_429_http_date = (\<lambda>j. Response 429 Header_other None)"

definition always_half :: "nat \<Rightarrow> real" where
  "always_half = (\<lambda>j. 1 / 2)"

text \<open>
  What the exhausted loop raises: the HTTP error of the last response, or the exception
  of the last call.
\<close>

definition final_error :: "'a response \<Rightarrow> error" where
  "final_error r =
     (case r of
        Response status ra body \<Rightarrow> HTTPError status
      | Raises_Timeout \<Rightarrow> Timeout
      | Raises_ConnectionError \<Rightarrow> ConnectionError)"

text \<open>
  A call that fails in a way the loop retries: a 429 or 5xx response whose header, if it
  has one, is a number that is not negative (or, in \<^verbatim>\<open>build_prebuilt_tokens.py\<close>, any
  text), a timeout, or a connection error.
\<close>

definition retried_failure :: "variant \<Rightarrow> 'a response \<Rightarrow> bool" where
  "retried_failure v r =
     (case r of
        Response status ra body \<Rightarrow>
          (status = 429 \<or> (500 \<le> status \<and> status < 600))
          \<and> (case ra of
                Header_number x \<Rightarrow> 0 \<le> x
              | Header_other \<Rightarrow> v = Build_prebuilt_tokens
              | _ \<Rightarrow> True)
      | _ \<Rightarrow> True)"

declare request_loop.simps [simp del]

lemma backoff_nonneg: "0 \<le> backoff v k"
  by (cases v) (simp_all add: backoff_def MAX_BACKOFF_SEC_def BASE_BACKOFF_SEC_def)

lemma backoff_le_max: "backoff v k \<le> MAX_BACKOFF_SEC v"
  by (simp add: backoff_def)

lemma backoff_mono:
  assumes "j \<le> k"
  shows "backoff v j \<le> backoff v k"
proof -
  from assms have "(2::real) ^ (j - 1) \<le> 2 ^ (k - 1)"
    by (intro power_increasing) auto
  then have "BASE_BACKOFF_SEC * 2 ^ (j - 1) \<le> BASE_BACKOFF_SEC * 2 ^ (k - 1)"
    by (simp add: BASE_BACKOFF_SEC_def)
  then show ?thesis
    unfolding backoff_def by (rule min.mono [OF order_refl])
qed

lemma jittered_nonneg:
  assumes "0 \<le> u"
  shows "\<not> backoff v k + u * 0.4 < 0"
  using backoff_nonneg [of v k] assms by (simp add: not_less)

lemma request_loop_prefix: "prefix slept (sleeps (request_loop v env rnd a slept))"
proof (induction v env rnd a slept rule: request_loop.induct)
  case (1 v env rnd attempt slept)
  show ?case
    apply (subst request_loop.simps)
    using "1.IH"
    apply (auto split: response.splits sum.splits option.splits)
       apply (blast dest: append_prefixD)+
    done
qed

lemma request_loop_attempts:
  "attempts (request_loop v env rnd a slept) \<le> max (Suc a) (MAX_RETRIES + 1)"
proof (induction v env rnd a slept rule: request_loop.induct)
  case (1 v env rnd attempt slept)
  show ?case
    apply (subst request_loop.simps)
    using "1.IH"
    apply (auto split: response.splits sum.splits option.splits)
    done
qed

lemma request_loop_step_429:
  assumes "env (Suc a) = Response 429 No_header b" and "0 \<le> rnd (Suc a)" and "Suc a \<le> MAX_RETRIES"
  shows "request_loop v env rnd a slept
         = request_loop v env rnd (Suc a) (slept @ [backoff v (Suc a) + rnd (Suc a) * 0.4])"
  using assms jittered_nonneg [of "rnd (Suc a)" v "Suc a"]
  by (subst request_loop.simps) (simp add: status_wait_def)

lemma request_loop_sleeps_429:
  assumes rnd: "\<forall>j. 0 \<le> rnd j"
  shows "\<forall>j. a < j \<and> j \<le> n \<longrightarrow> (\<exists>b. env j = Response 429 No_header b)
         \<Longrightarrow> a < k \<Longrightarrow> k \<le> n \<Longrightarrow> k \<le> MAX_RETRIES \<Longrightarrow> length slept = a
         \<Longrightarrow> k \<le> length (sleeps (request_loop v env rnd a slept))
             \<and> sleeps (request_loop v env rnd a slept) ! (k - 1) = backoff v k + rnd k * 0.4"
proof (induction "k - a" arbitrary: a slept)
  case 0
  then show ?case by simp
next
  case (Suc d)
  define w where "w = backoff v (Suc a) + rnd (Suc a) * 0.4"
  have "a < Suc a \<and> Suc a \<le> n" using Suc.prems by simp
  with Suc.prems(1) obtain b where b: "env (Suc a) = Response 429 No_header b"
    by blast
  have retry: "Suc a \<le> MAX_RETRIES" using Suc.prems by simp
  have step: "request_loop v env rnd a slept = request_loop v env rnd (Suc a) (slept @ [w])"
    unfolding w_def using b rnd retry by (intro request_loop_step_429) auto
  show ?case
  proof (cases "k = Suc a")
    case True
    from request_loop_prefix [of "slept @ [w]" v env rnd "Suc a"]
    obtain ys where ys: "sleeps (request_loop v env rnd (Suc a) (slept @ [w])) = slept @ w # ys"
      by (auto simp: prefix_def)
    have "sleeps (request_loop v env rnd a slept) ! (k - 1) = w"
      using True Suc.prems(5) by (simp add: step ys nth_append)
    moreover have "k \<le> length (sleeps (request_loop v env rnd a slept))"
      using True Suc.prems(5) by (simp add: step ys)
    ultimately show ?thesis using True by (simp add: w_def)
  next
    case False
    have "k \<le> length (sleeps (request_loop v env rnd (Suc a) (slept @ [w])))
         \<and> sleeps (request_loop v env rnd (Suc a) (slept @ [w])) ! (k - 1) = backoff v k + rnd k * 0.4"
    proof (rule Suc.hyps(1))
      show "d = k - Suc a" using Suc.hyps(2) by simp
      show "\<forall>j. Suc a < j \<and> j \<le> n \<longrightarrow> (\<exists>b. env j = Response 429 No_header b)"
        using Suc.prems(1) by auto
      show "Suc a < k" using False Suc.prems(2) by simp
      show "k \<le> n" by (rule Suc.prems(3))
      show "k \<le> MAX_RETRIES" by (rule Suc.prems(4))
      show "length (slept @ [w]) = Suc a" using Suc.prems(5) by simp
    qed
    then show ?thesis by (simp only: step)
  qed
qed

text \<open>
  Claim C7. Let the first \<open>n\<close> calls be answered with status 429 and no
  \<^verbatim>\<open>Retry-After\<close> header. For every \<open>k\<close> up to \<open>n\<close> and up to \<^verbatim>\<open>MAX_RETRIES\<close>, the
  \<open>k\<close>-th wait of \<^verbatim>\<open>request_json\<close> (computed with the counter \<^verbatim>\<open>attempt\<close> at \<open>k\<close>,
  the number its log line prints) is \<^verbatim>\<open>min(MAX_BACKOFF_SEC, BASE_BACKOFF_SEC * 2^(k-1))\<close>
  plus a jitter in \<open>[0, 0.4)\<close>; it is at most \<^verbatim>\<open>MAX_BACKOFF_SEC + 0.4\<close>, and the
  deterministic part never decreases with \<open>k\<close> and never exceeds the cap.
\<close>

theorem backoff_monotonic_bound:
  assumes "\<forall>j. 1 \<le> j \<and> j \<le> n \<longrightarrow> (\<exists>b. env j = Response 429 No_header b)"
    and "\<forall>j. 0 \<le> rnd j \<and> rnd j < 1"
    and "1 \<le> k" and "k \<le> n" and "k \<le> MAX_RETRIES"
  shows "k \<le> length (sleeps (request_json v env rnd))
         \<and> sleeps (request_json v env rnd) ! (k - 1)
             = min (MAX_BACKOFF_SEC v) (BASE_BACKOFF_SEC * 2 ^ (k - 1)) + rnd k * 0.4
         \<and> 0 \<le> rnd k * 0.4 \<and> rnd k * 0.4 < 0.4
         \<and> sleeps (request_json v env rnd) ! (k - 1) \<le> MAX_BACKOFF_SEC v + 0.4
         \<and> (\<forall>i j. i \<le> j \<longrightarrow> backoff v i \<le> backoff v j)
         \<and> (\<forall>j. backoff v j \<le> MAX_BACKOFF_SEC v)"
proof -
  have rnd0: "\<forall>j. 0 \<le> rnd j" using assms(2) by simp
  have env: "\<forall>j. 0 < j \<and> j \<le> n \<longrightarrow> (\<exists>b. env j = Response 429 No_header b)"
    using assms(1) by (simp add: Suc_le_eq)
  have "k \<le> length (sleeps (request_loop v env rnd 0 []))
         \<and> sleeps (request_loop v env rnd 0 []) ! (k - 1) = backoff v k + rnd k * 0.4"
    using env assms(3-5) by (intro request_loop_sleeps_429 [OF rnd0]) auto
  then have a: "k \<le> length (sleeps (request_json v env rnd))"
    and b: "sleeps (request_json v env rnd) ! (k - 1) = backoff v k + rnd k * 0.4"
    by (simp_all add: request_json_def)
  have j: "0 \<le> rnd k * 0.4" "rnd k * 0.4 < 0.4"
    using assms(2) by simp_all
  have c: "sleeps (request_json v env rnd) ! (k - 1) \<le> MAX_BACKOFF_SEC v + 0.4"
    using b j(2) backoff_le_max [of v k] by simp
  show ?thesis
    using a b j c backoff_mono backoff_le_max by (simp add: backoff_def)
qed

theorem backoff_monotonic_bound_witness:
  "3 \<le> length (sleeps (request_json Build_prebuilt_tokens always_429 always_half))
   \<and> sleeps (request_json Build_prebuilt_tokens always_429 always_half) ! 2 = 8 + 1 / 5
   \<and> sleeps (request_json Build_prebuilt_db always_429 always_half) ! 5 = 64 + 1 / 5"
proof -
  have env: "\<forall>j. 1 \<le> j \<and> j \<le> 6 \<longrightarrow> (\<exists>b. always_429 j = Response 429 No_header b)"
    by (simp add: always_429_def)
  have rnd: "\<forall>j. 0 \<le> always_half j \<and> always_half j < 1"
    by (simp add: always_half_def)
  have "(3::nat) \<le> MAX_RETRIES" "(6::nat) \<le> MAX_RETRIES"
    by (simp_all add: MAX_RETRIES_def)
  with backoff_monotonic_bound [OF env rnd, of 3 Build_prebuilt_tokens]
    backoff_monotonic_bound [OF env rnd, of 6 Build_prebuilt_db]
  show ?thesis
    by (simp add: MAX_BACKOFF_SEC_def BASE_BACKOFF_SEC_def always_half_def)
qed

text \<open>
  When every call fails in a way the loop retries, a header that is a number being
  finite and not negative (the largest wait \<^verbatim>\<open>time.sleep\<close> takes is not modelled),
  \<^verbatim>\<open>request_json\<close> makes \<^verbatim>\<open>MAX_RETRIES + 1\<close> calls and raises the error of the
  last one.
\<close>

lemma request_loop_exhausts:
  assumes fails: "\<forall>j. retried_failure v (env j)" and rnd: "\<forall>j. 0 \<le> rnd j"
  shows "a \<le> MAX_RETRIES \<Longrightarrow>
         outcome (request_loop v env rnd a slept) = Inl (final_error (env (Suc MAX_RETRIES)))
         \<and> attempts (request_loop v env rnd a slept) = Suc MAX_RETRIES"
proof (induction "MAX_RETRIES - a" arbitrary: a slept)
  case 0
  then have a: "a = MAX_RETRIES" by simp
  from fails have "retried_failure v (env (Suc a))" by blast
  then show ?case
    by (subst (1 2) request_loop.simps)
      (auto simp: a retried_failure_def final_error_def status_wait_def
        split: response.splits retry_after.splits variant.splits)
next
  case (Suc d)
  then have lt: "Suc a \<le> MAX_RETRIES" and d: "d = MAX_RETRIES - Suc a" by simp_all
  note IH = Suc.hyps(1) [OF d lt]
  from fails have f: "retried_failure v (env (Suc a))" by blast
  have j: "\<not> backoff v (Suc a) + rnd (Suc a) * 0.4 < 0"
    using rnd by (intro jittered_nonneg) simp
  show ?case
    apply (subst (1 2) request_loop.simps)
    using f j lt IH
    apply (auto simp: retried_failure_def status_wait_def
        split: response.splits retry_after.splits variant.splits)
    done
qed

text \<open>
  Claim C8. \<^verbatim>\<open>request_json\<close> never makes more than \<^verbatim>\<open>MAX_RETRIES + 1\<close> calls. Against
  an upstream that answers every call with 429 and an HTTP date in \<^verbatim>\<open>Retry-After\<close>,
  \<^verbatim>\<open>build_prebuilt_tokens.py\<close> waits ten seconds six times and raises the HTTP error of
  the seventh call, while \<^verbatim>\<open>build_prebuilt_db.py\<close> raises the ValueError of
  \<^verbatim>\<open>float(retry_after)\<close> at the first call, without a retry.
\<close>

theorem retry_ceiling_http_date:
  "attempts (request_json v env rnd) \<le> MAX_RETRIES + 1
   \<and> request_json Build_prebuilt_tokens always_429_http_date always_half
       = \<lparr>outcome = Inl (HTTPError 429), sleeps = [10, 10, 10, 10, 10, 10], attempts = 7\<rparr>
   \<and> request_json Build_prebuilt_db always_429_http_date always_half
       = \<lparr>outcome = Inl ValueError, sleeps = [], attempts = 1\<rparr>"
proof -
  have "attempts (request_json v env rnd) \<le> MAX_RETRIES + 1"
    using request_loop_attempts [of v env rnd 0 "[]"] by (simp add: request_json_def)
  moreover have "request_json Build_prebuilt_tokens always_429_http_date always_half
       = \<lparr>outcome = Inl (HTTPError 429), sleeps = [10, 10, 10, 10, 10, 10], attempts = 7\<rparr>"
    by (simp add: request_json_def request_loop.simps always_429_http_date_def status_wait_def
        MAX_RETRIES_def)
  moreover have "request_json Build_prebuilt_db always_429_http_date always_half
       = \<lparr>outcome = Inl ValueError, sleeps = [], attempts = 1\<rparr>"
    by (simp add: request_json_def request_loop.simps always_429_http_date_def status_wait_def)
  ultimately show ?thesis by blast
qed

theorem retry_ceiling_http_date_witness:
  "attempts (request_json Build_prebuilt_db always_429 always_half) \<le> 7
   \<and> attempts (request_json Build_prebuilt_tokens always_429_http_date always_half) = 7
   \<and> outcome (request_json Build_prebuilt_db always_429_http_date always_half) = Inl ValueError"
  using retry_ceiling_http_date [of Build_prebuilt_db always_429 always_half]
  by (simp add: MAX_RETRIES_def)

section \<open>The user\_version counter\<close>

lemma ensure_schema_user_version:
  "ensure_schema db = Inr db1 \<Longrightarrow> user_version db1 = user_version db"
  by (auto simp: ensure_schema_def rebuild_tokens_table_room_schema_def
      split: if_splits option.splits)

lemma apply_patch_files_user_version:
  "apply_patch_files float_text db dry files tot = Inr (db', tot')
   \<Longrightarrow> user_version db' = user_version db"
proof (induction files arbitrary: db tot)
  case Nil
  then show ?case by simp
next
  case (Cons f files)
  obtain p ts where f: "f = (p, ts)" by (cases f)
  obtain tu tm tsk where tot: "tot = (tu, tm, tsk)" by (cases tot)
  from Cons.prems f tot obtain tb where tb: "tokens_tbl db = Some tb"
    by (auto split: option.splits)
  from Cons.prems f tot tb obtain t' u m s
    where ap: "apply_patches float_text (rows tb) p dry ts = Inr (t', u, m, s)"
    by (auto split: sum.splits)
  from Cons.prems f tot tb ap
  have "apply_patch_files float_text (db\<lparr>tokens_tbl := Some (tb\<lparr>rows := t'\<rparr>)\<rparr>) dry files
          (tu + u, tm + m, tsk + s) = Inr (db', tot')"
    by simp
  from Cons.IH [OF this] show ?case by simp
qed

text \<open>
  Patch options that ask for the bump, and a batch whose one entry names no row of the
  store.
\<close>

definition example_bump_args :: patch_args where
  "example_bump_args =
     \<lparr>dry_run_opt = False, set_user_version_opt = None, bump_user_version_opt = True\<rparr>"

definition absent_patch :: json where
  "absent_patch = JArr [JObj [(''cgId'', JStr ''x''), (''description'', JStr ''t'')]]"

definition one_row_db :: "int \<Rightarrow> string option \<Rightarrow> database" where
  "one_row_db v d =
     \<lparr>tokens_tbl = Some \<lparr>info = room_columns, rows = [example_row ''a'' d 0]\<rparr>, user_version = v\<rparr>"

lemma absent_patch_counts:
  "apply_patches example_float_text example_store absent_patch False 9
     = Inr (example_store, 0, 1, 0)"
proof -
  have ex: "\<not> exists_row example_store ''x''"
    by (simp add: exists_row_def example_store_def example_row_def)
  show ?thesis
    by (simp add: apply_patches_def patch_items_def absent_patch_def patch_one_def
        entry_cgId_def py_get_def py_or_def strip_letter ex)
qed

text \<open>
  Claim C4 as stated fails for \<^verbatim>\<open>safe_patch_prebuilt_db.py\<close>: with
  \<^verbatim>\<open>--bump-user-version\<close> its \<^verbatim>\<open>main\<close> advances the counter from 3 to 4 although the
  run updated no entry.
\<close>

theorem bump_without_update_counterexample:
  "bump_user_version_opt example_bump_args
   \<and> user_version example_db = 3
   \<and> safe_patch_main example_float_text example_bump_args example_db [(absent_patch, 9)]
       = Inr (example_db\<lparr>user_version := 4\<rparr>, 0, 1, 0)"
proof -
  have "bump_user_version_opt example_bump_args"
    by (simp add: example_bump_args_def)
  moreover have "user_version example_db = 3"
    by (simp add: example_db_def)
  moreover have "apply_patch_files example_float_text example_db False [(absent_patch, 9)] (0, 0, 0)
       = Inr (example_db, 0, 1, 0)"
    by (simp add: example_db_def absent_patch_counts)
  then have "safe_patch_main example_float_text example_bump_args example_db [(absent_patch, 9)]
       = Inr (example_db\<lparr>user_version := 4\<rparr>, 0, 1, 0)"
    by (simp add: safe_patch_main_def example_db_ok user_version_handling_def
        example_bump_args_def set_user_version_def)
      (simp add: example_db_def)
  ultimately show ?thesis by blast
qed

text \<open>
  Claim C4, amended. \<^verbatim>\<open>patch_descriptions.py\<close> advances the counter by one exactly when
  \<^verbatim>\<open>--bump-user-version\<close> is given and at least one entry was updated, and leaves it as
  it is otherwise. \<^verbatim>\<open>safe_patch_prebuilt_db.py\<close>, run with \<^verbatim>\<open>--bump-user-version\<close> and
  without \<^verbatim>\<open>--dry-run\<close> and \<^verbatim>\<open>--set-user-version\<close>, advances it by one whatever the
  counts are. In both, a counter that stands at the largest 32-bit value goes to 0: the
  new value \<open>v + 1\<close> is no longer one SQLite stores.
\<close>

theorem bump_user_version:
  "(patch_descriptions_main overwrite bump db updates = Inr (db', n)
      \<longrightarrow> user_version db' =
            (if bump \<and> n > 0
             then (if - (2 ^ 31) \<le> user_version db + 1 \<and> user_version db + 1 < 2 ^ 31
                   then user_version db + 1 else 0)
             else user_version db))
   \<and> (\<not> dry_run_opt args \<and> set_user_version_opt args = None \<and> bump_user_version_opt args
        \<and> safe_patch_main float_text args db0 files = Inr (db2, u, m, s)
      \<longrightarrow> user_version db2 =
            (if - (2 ^ 31) \<le> user_version db0 + 1 \<and> user_version db0 + 1 < 2 ^ 31
             then user_version db0 + 1 else 0))"
proof -
  have pd: "patch_descriptions_main overwrite bump db updates = Inr (db', n)
      \<longrightarrow> user_version db' =
            (if bump \<and> n > 0
             then (if - (2 ^ 31) \<le> user_version db + 1 \<and> user_version db + 1 < 2 ^ 31
                   then user_version db + 1 else 0)
             else user_version db)"
    by (auto simp: patch_descriptions_main_def Let_def set_user_version_def
        split: if_splits option.splits sum.splits)
  have sp: "\<not> dry_run_opt args \<and> set_user_version_opt args = None \<and> bump_user_version_opt args
        \<and> safe_patch_main float_text args db0 files = Inr (db2, u, m, s)
      \<longrightarrow> user_version db2 =
            (if - (2 ^ 31) \<le> user_version db0 + 1 \<and> user_version db0 + 1 < 2 ^ 31
             then user_version db0 + 1 else 0)"
  proof
    assume h: "\<not> dry_run_opt args \<and> set_user_version_opt args = None \<and> bump_user_version_opt args
        \<and> safe_patch_main float_text args db0 files = Inr (db2, u, m, s)"
    then obtain db1 db3
      where es: "ensure_schema db0 = Inr db1"
        and files: "apply_patch_files float_text db1 (dry_run_opt args) files (0, 0, 0) = Inr (db3, u, m, s)"
        and db2: "db2 = user_version_handling args db3"
      by (auto simp: safe_patch_main_def split: sum.splits)
    have "user_version db3 = user_version db0"
      using ensure_schema_user_version [OF es] apply_patch_files_user_version [OF files] by simp
    with h db2 show "user_version db2 =
            (if - (2 ^ 31) \<le> user_version db0 + 1 \<and> user_version db0 + 1 < 2 ^ 31
             then user_version db0 + 1 else 0)"
      by (simp add: user_version_handling_def set_user_version_def)
  qed
  from pd sp show ?thesis by blast
qed

text \<open>
  Instances: a fill of one row with the bump (3 becomes 4); an input that fills nothing
  (3 stays); the same fill at the largest 32-bit value (it becomes 0); and the run of
  the counterexample.
\<close>

lemma one_row_fill:
  "patch_descriptions_main False True (one_row_db v None) [(''a'', ''t'')]
     = Inr (set_user_version (one_row_db v (Some ''t'')) (v + 1), 1)"
  by (simp add: patch_descriptions_main_def pd_one_def pd_where_def pd_had_def exists_row_def
      one_row_db_def example_row_def Let_def)

lemma one_row_nothing:
  "patch_descriptions_main False True (one_row_db v (Some ''old'')) [(''a'', ''t'')]
     = Inr (one_row_db v (Some ''old''), 0)"
  by (simp add: patch_descriptions_main_def pd_one_def pd_where_def pd_had_def exists_row_def
      one_row_db_def example_row_def Let_def)

theorem bump_user_version_witness:
  "patch_descriptions_main False True (one_row_db 3 None) [(''a'', ''t'')]
     = Inr (one_row_db 4 (Some ''t''), 1)
   \<and> patch_descriptions_main False True (one_row_db 3 (Some ''old'')) [(''a'', ''t'')]
       = Inr (one_row_db 3 (Some ''old''), 0)
   \<and> patch_descriptions_main False True (one_row_db 2147483647 None) [(''a'', ''t'')]
       = Inr (one_row_db 0 (Some ''t''), 1)
   \<and> \<not> dry_run_opt example_bump_args \<and> set_user_version_opt example_bump_args = None
   \<and> bump_user_version_opt example_bump_args
   \<and> (\<exists>db2. safe_patch_main example_float_text example_bump_args example_db [(absent_patch, 9)]
              = Inr (db2, 0, 1, 0) \<and> user_version db2 = 4)"
proof -
  have a: "patch_descriptions_main False True (one_row_db 3 None) [(''a'', ''t'')]
     = Inr (one_row_db 4 (Some ''t''), 1)"
    by (simp add: one_row_fill) (simp add: one_row_db_def set_user_version_def)
  have b: "patch_descriptions_main False True (one_row_db 2147483647 None) [(''a'', ''t'')]
       = Inr (one_row_db 0 (Some ''t''), 1)"
    by (simp add: one_row_fill) (simp add: one_row_db_def set_user_version_def)
  have args: "\<not> dry_run_opt example_bump_args" "set_user_version_opt example_bump_args = None"
    "bump_user_version_opt example_bump_args"
    by (simp_all add: example_bump_args_def)
  have files: "apply_patch_files example_float_text example_db False [(absent_patch, 9)] (0, 0, 0)
       = Inr (example_db, 0, 1, 0)"
    by (simp add: example_db_def absent_patch_counts)
  have main: "safe_patch_main example_float_text example_bump_args example_db [(absent_patch, 9)]
       = Inr (user_version_handling example_bump_args example_db, 0, 1, 0)"
    by (simp add: safe_patch_main_def example_db_ok args files del: apply_patch_files.simps)
  have uv: "user_version example_db = 3"
    by (simp add: example_db_def)
  from bump_user_version [of False True "one_row_db 3 None" "[(''a'', ''t'')]" "one_row_db 4 (Some ''t'')" 1
      example_bump_args example_float_text example_db "[(absent_patch, 9)]"
      "user_version_handling example_bump_args example_db" 0 1 0] args main uv
  have "user_version (user_version_handling example_bump_args example_db) = 4"
    by simp
  with main have c: "\<exists>db2. safe_patch_main example_float_text example_bump_args example_db [(absent_patch, 9)]
              = Inr (db2, 0, 1, 0) \<and> user_version db2 = 4"
    by blast
  from a one_row_nothing b args c show ?thesis by blast
qed

section \<open>The schema rebuild\<close>











section \<open>What an update writes\<close>

text \<open>
  The real run of one iteration either leaves the table as it is, or, for an entry that
  it counts as updated, applies the UPDATE with the two parameters bound from the
  entry's fields.
\<close>

lemma patch_one_table:
  assumes "patch_one float_text False ts s e = Inr s'"
  shows "(spec_outcome (table s) (spec_list_entry e) \<noteq> Updated \<and> table s' = table s)
         \<or> (spec_outcome (table s) (spec_list_entry e) = Updated
             \<and> (\<exists>d i. bind_text float_text (none_if_falsy (fst (snd (spec_list_entry e)))) = Inr d
                    \<and> bind_text float_text (none_if_falsy (snd (snd (spec_list_entry e)))) = Inr i
                    \<and> table s' = map (patch_update d i ts (fst (spec_list_entry e))) (table s)))"
proof -
  from assms obtain it where e: "e = JObj it"
    by (cases e) (simp_all add: patch_one_def)
  from assms e obtain k where k: "entry_cgId it = Inr k"
    by (cases "entry_cgId it") (simp_all add: patch_one_def)
  then have id: "spec_identifier it = k"
    by (auto simp: entry_cgId_def spec_identifier_def split: json.splits)
  from assms show ?thesis
    by (auto simp: patch_one_def e k id spec_outcome_def spec_list_entry_def empty_field_def Let_def
        split: sum.splits if_splits)
qed

text \<open>The identifiers of the entries that are counted as updated.\<close>

definition updated_ids :: "tokens \<Rightarrow> spec_entry list \<Rightarrow> string set" where
  "updated_ids t es = fst ` {e \<in> set es. spec_outcome t e = Updated}"

lemma updated_ids_cong:
  assumes "map cgId t' = map cgId t"
  shows "updated_ids t' es = updated_ids t es"
  unfolding updated_ids_def using spec_outcome_cong [OF assms] by simp

lemma updated_ids_Cons:
  "updated_ids t (e # es) =
     (if spec_outcome t e = Updated then insert (fst e) (updated_ids t es) else updated_ids t es)"
  by (auto simp: updated_ids_def)

lemma patch_loop_rows:
  assumes "patch_loop float_text False ts s items = Inr s'"
  shows "\<exists>f. table s' = map f (table s)
           \<and> (\<forall>r. cgId (f r) = cgId r)
           \<and> (\<forall>r. cgId r \<in> Some ` updated_ids (table s) (map spec_list_entry items)
                  \<longrightarrow> updatedAt (f r) = Some ts)
           \<and> (\<forall>r. cgId r \<notin> Some ` updated_ids (table s) (map spec_list_entry items)
                  \<longrightarrow> f r = r)"
  using assms
proof (induction items arbitrary: s)
  case Nil
  then have "table s' = map (\<lambda>r. r) (table s)" by simp
  then show ?case
    by (intro exI [of _ "\<lambda>r. r"]) (simp add: updated_ids_def)
next
  case (Cons e items)
  from Cons.prems obtain s1 where one: "patch_one float_text False ts s e = Inr s1"
    and loop: "patch_loop float_text False ts s1 items = Inr s'"
    by (auto split: sum.splits)
  define k where "k = fst (spec_list_entry e)"
  define upd where "upd = (spec_outcome (table s) (spec_list_entry e) = Updated)"
  from patch_one_table [OF one] obtain f1
    where t1: "table s1 = map f1 (table s)"
      and id1: "\<forall>r. cgId (f1 r) = cgId r"
      and hit1: "\<forall>r. upd \<and> cgId r = Some k \<longrightarrow> updatedAt (f1 r) = Some ts"
      and miss1: "\<forall>r. \<not> (upd \<and> cgId r = Some k) \<longrightarrow> f1 r = r"
  proof (elim disjE conjE exE)
    assume n: "spec_outcome (table s) (spec_list_entry e) \<noteq> Updated" and t: "table s1 = table s"
    show thesis
      by (rule that [of "\<lambda>r. r"]) (simp_all add: t upd_def n)
  next
    fix d i
    assume u: "spec_outcome (table s) (spec_list_entry e) = Updated"
      and t: "table s1 = map (patch_update d i ts (fst (spec_list_entry e))) (table s)"
    show thesis
      by (rule that [of "patch_update d i ts k"]) (simp_all add: t u upd_def k_def patch_update_def)
  qed
  have ids1: "map cgId (table s1) = map cgId (table s)"
    by (simp add: t1 id1)
  from Cons.IH [OF loop] obtain f2
    where t2: "table s' = map f2 (table s1)"
      and id2: "\<forall>r. cgId (f2 r) = cgId r"
      and hit2: "\<forall>r. cgId r \<in> Some ` updated_ids (table s) (map spec_list_entry items)
                  \<longrightarrow> updatedAt (f2 r) = Some ts"
      and miss2: "\<forall>r. cgId r \<notin> Some ` updated_ids (table s) (map spec_list_entry items)
                  \<longrightarrow> f2 r = r"
    unfolding updated_ids_cong [OF ids1] by blast
  have U: "updated_ids (table s) (map spec_list_entry (e # items)) =
        (if upd then insert k (updated_ids (table s) (map spec_list_entry items))
         else updated_ids (table s) (map spec_list_entry items))"
    by (simp add: updated_ids_Cons upd_def k_def)
  have a: "table s' = map (f2 \<circ> f1) (table s)"
    by (simp add: t2 t1)
  have b: "\<forall>r. cgId ((f2 \<circ> f1) r) = cgId r"
    by (simp add: id1 id2)
  have c: "\<forall>r. cgId r \<in> Some ` updated_ids (table s) (map spec_list_entry (e # items))
                  \<longrightarrow> updatedAt ((f2 \<circ> f1) r) = Some ts"
  proof (intro allI impI)
    fix r :: token_row
    assume r: "cgId r \<in> Some ` updated_ids (table s) (map spec_list_entry (e # items))"
    show "updatedAt ((f2 \<circ> f1) r) = Some ts"
    proof (cases "cgId (f1 r) \<in> Some ` updated_ids (table s) (map spec_list_entry items)")
      case True
      with hit2 show ?thesis by simp
    next
      case False
      with miss2 have same: "f2 (f1 r) = f1 r" by blast
      from False id1 have "cgId r \<notin> Some ` updated_ids (table s) (map spec_list_entry items)"
        by simp
      with r U have "upd \<and> cgId r = Some k"
        by (auto split: if_splits)
      with hit1 same show ?thesis by simp
    qed
  qed
  have d: "\<forall>r. cgId r \<notin> Some ` updated_ids (table s) (map spec_list_entry (e # items))
                  \<longrightarrow> (f2 \<circ> f1) r = r"
  proof (intro allI impI)
    fix r :: token_row
    assume r: "cgId r \<notin> Some ` updated_ids (table s) (map spec_list_entry (e # items))"
    with U have n1: "\<not> (upd \<and> cgId r = Some k)"
      and n2: "cgId r \<notin> Some ` updated_ids (table s) (map spec_list_entry items)"
      by (auto split: if_splits)
    from n1 miss1 have "f1 r = r" by blast
    with n2 miss2 show "(f2 \<circ> f1) r = r" by simp
  qed
  from a b c d show ?case by blast
qed

text \<open>The enrich pass, row by row.\<close>

definition enrich_succeeds ::
  "(string \<Rightarrow> string) \<Rightarrow> (pyfloat \<Rightarrow> string option) \<Rightarrow> (string option \<Rightarrow> error + json)
     \<Rightarrow> bool \<Rightarrow> string option \<Rightarrow> bool" where
  "enrich_succeeds clean float_text fetch skip_images cid =
     (case enrich_params clean float_text fetch skip_images cid of
        Inl e \<Rightarrow> False
      | Inr x \<Rightarrow> cid \<noteq> None)"

lemma enrich_one_rows:
  "\<exists>f. enrich_one_tokens clean float_text fetch skip_images now t cid = map f t
       \<and> (\<forall>r. cgId (f r) = cgId r)
       \<and> (\<forall>r. cgId r = cid \<and> enrich_succeeds clean float_text fetch skip_images cid
              \<longrightarrow> updatedAt (f r) = Some now)
       \<and> (\<forall>r. \<not> (cgId r = cid \<and> enrich_succeeds clean float_text fetch skip_images cid)
              \<longrightarrow> f r = r)"
proof (cases "enrich_params clean float_text fetch skip_images cid")
  case (Inl e)
  then have "enrich_one_tokens clean float_text fetch skip_images now t cid = map (\<lambda>r. r) t"
    by (simp add: enrich_one_tokens_def)
  with Inl show ?thesis
    by (intro exI [of _ "\<lambda>r. r"]) (simp add: enrich_succeeds_def)
next
  case (Inr x)
  obtain d i where x: "x = (d, i)" by (cases x)
  define f :: "token_row \<Rightarrow> token_row" where "f = (\<lambda>r. if cid \<noteq> None \<and> cgId r = cid
                    then r\<lparr>description := d, imageUrl := i, updatedAt := Some now\<rparr> else r)"
  have "enrich_one_tokens clean float_text fetch skip_images now t cid = map f t"
    by (simp add: enrich_one_tokens_def Inr x f_def)
  then show ?thesis
    by (intro exI [of _ f]) (auto simp: f_def enrich_succeeds_def Inr)
qed

lemma enrich_details_rows:
  "\<exists>f. enrich_details_tokens clean float_text fetch t ids skip_images now = map f t
       \<and> (\<forall>r. cgId (f r) = cgId r)
       \<and> (\<forall>r. cgId r \<in> set ids \<and> enrich_succeeds clean float_text fetch skip_images (cgId r)
              \<longrightarrow> updatedAt (f r) = Some now)
       \<and> (\<forall>r. \<not> (cgId r \<in> set ids \<and> enrich_succeeds clean float_text fetch skip_images (cgId r))
              \<longrightarrow> f r = r)"
proof (induction ids arbitrary: t)
  case Nil
  show ?case
    by (intro exI [of _ "\<lambda>r. r"]) (simp add: enrich_details_tokens_def)
next
  case (Cons cid ids)
  obtain f1 where t1: "enrich_one_tokens clean float_text fetch skip_images now t cid = map f1 t"
    and id1: "\<forall>r. cgId (f1 r) = cgId r"
    and hit1: "\<forall>r. cgId r = cid \<and> enrich_succeeds clean float_text fetch skip_images cid
              \<longrightarrow> updatedAt (f1 r) = Some now"
    and miss1: "\<forall>r. \<not> (cgId r = cid \<and> enrich_succeeds clean float_text fetch skip_images cid)
              \<longrightarrow> f1 r = r"
    using enrich_one_rows [of clean float_text fetch skip_images now t cid] by blast
  obtain f2 where t2: "enrich_details_tokens clean float_text fetch (map f1 t) ids skip_images now
        = map f2 (map f1 t)"
    and id2: "\<forall>r. cgId (f2 r) = cgId r"
    and hit2: "\<forall>r. cgId r \<in> set ids \<and> enrich_succeeds clean float_text fetch skip_images (cgId r)
              \<longrightarrow> updatedAt (f2 r) = Some now"
    and miss2: "\<forall>r. \<not> (cgId r \<in> set ids \<and> enrich_succeeds clean float_text fetch skip_images (cgId r))
              \<longrightarrow> f2 r = r"
    using Cons.IH [of "map f1 t"] by blast
  have a: "enrich_details_tokens clean float_text fetch t (cid # ids) skip_images now
        = map (f2 \<circ> f1) t"
    using t2 by (simp add: enrich_details_tokens_def t1)
  have b: "\<forall>r. cgId ((f2 \<circ> f1) r) = cgId r"
    by (simp add: id1 id2)
  have c: "\<forall>r. cgId r \<in> set (cid # ids) \<and> enrich_succeeds clean float_text fetch skip_images (cgId r)
              \<longrightarrow> updatedAt ((f2 \<circ> f1) r) = Some now"
  proof (intro allI impI)
    fix r :: token_row
    assume r: "cgId r \<in> set (cid # ids) \<and> enrich_succeeds clean float_text fetch skip_images (cgId r)"
    show "updatedAt ((f2 \<circ> f1) r) = Some now"
    proof (cases "cgId r \<in> set ids")
      case True
      with r id1 hit2 show ?thesis by simp
    next
      case False
      with r have hit: "cgId r = cid \<and> enrich_succeeds clean float_text fetch skip_images cid"
        by auto
      from False id1 miss2 have "f2 (f1 r) = f1 r" by simp
      with hit hit1 show ?thesis by simp
    qed
  qed
  have d: "\<forall>r. \<not> (cgId r \<in> set (cid # ids) \<and> enrich_succeeds clean float_text fetch skip_images (cgId r))
              \<longrightarrow> (f2 \<circ> f1) r = r"
  proof (intro allI impI)
    fix r :: token_row
    assume r: "\<not> (cgId r \<in> set (cid # ids) \<and> enrich_succeeds clean float_text fetch skip_images (cgId r))"
    then have "\<not> (cgId r = cid \<and> enrich_succeeds clean float_text fetch skip_images cid)"
      by auto
    with miss1 have f1: "f1 r = r" by blast
    from r have "\<not> (cgId r \<in> set ids \<and> enrich_succeeds clean float_text fetch skip_images (cgId r))"
      by auto
    with miss2 f1 show "(f2 \<circ> f1) r = r" by simp
  qed
  from a b c d show ?case by blast
qed

text \<open>
  A patch that gives the row of \<open>described_row\<close> the description it has, and an
  upstream that answers every detail request with that description.
\<close>

definition same_patch :: json where
  "same_patch = JArr [JObj [(''cgId'', JStr ''c''), (''description'', JStr ''old'')]]"

definition same_fetch :: "string option \<Rightarrow> error + json" where
  "same_fetch = (\<lambda>cid. Inr (JObj [(''description'', JObj [(''en'', JStr ''old'')])]))"

definition no_clean :: "string \<Rightarrow> string" where
  "no_clean = (\<lambda>x. x)"

lemma strip_c: "strip ''c'' = ''c''"
  by (simp add: strip_def lstrip_any.simps py_whitespace_def)

lemma same_patch_run:
  "apply_patches example_float_text [described_row] same_patch False 9
     = Inr ([described_row\<lparr>updatedAt := Some 9\<rparr>], 1, 0, 0)"
  by (simp add: apply_patches_def patch_items_def same_patch_def patch_one_def entry_cgId_def
      py_get_def py_or_def strip_c exists_row_def described_row_def example_row_def
      none_if_falsy_def bind_text_def patch_update_def coalesce_def)

lemma same_fetch_run:
  "enrich_details_tokens no_clean example_float_text same_fetch [described_row] [Some ''c''] True 9
     = [described_row\<lparr>updatedAt := Some 9\<rparr>]"
  by (simp add: enrich_details_tokens_def enrich_one_tokens_def enrich_params_def
      enrich_values_def strip_html_def same_fetch_def no_clean_def py_get_def py_or_def
      bind_text_def described_row_def example_row_def)

text \<open>
  Claim C5 as stated fails. The patch and the enrich pass write to the row what it
  holds already (description \<^verbatim>\<open>old\<close>, no image), and \<^verbatim>\<open>updatedAt\<close> goes from 5 to 9.
\<close>

theorem noop_write_counterexample:
  "description described_row = Some ''old'' \<and> imageUrl described_row = None
   \<and> updatedAt described_row = Some 5
   \<and> apply_patches example_float_text [described_row] same_patch False 9
       = Inr ([described_row\<lparr>updatedAt := Some 9\<rparr>], 1, 0, 0)
   \<and> enrich_details_tokens no_clean example_float_text same_fetch [described_row] [Some ''c''] True 9
       = [described_row\<lparr>updatedAt := Some 9\<rparr>]"
  using same_patch_run same_fetch_run by (simp add: described_row_def example_row_def)

text \<open>
  Claim C5, amended. A real run of \<^verbatim>\<open>apply_patches\<close> that returns sets \<^verbatim>\<open>updatedAt\<close>
  to the timestamp of the run in every row whose identifier is that of an entry counted
  as updated, whether or not the entry changes the row, and leaves every other row as it
  is. A pass of \<^verbatim>\<open>enrich_details\<close> of \<^verbatim>\<open>build_prebuilt_tokens.py\<close> sets
  \<^verbatim>\<open>updatedAt\<close> to the time of the pass in every row whose identifier is in the list
  and whose iteration raises nothing, whether or not the row changes, and leaves every
  other row as it is.
\<close>

theorem updatedAt_set_by_every_update:
  "(apply_patches float_text t p False ts = Inr (t', u, m, s) \<and> patch_items p = Inr items
      \<longrightarrow> length t' = length t
          \<and> (\<forall>i<length t.
                (cgId (t ! i) \<in> Some ` updated_ids t (map spec_list_entry items)
                   \<longrightarrow> updatedAt (t' ! i) = Some ts)
              \<and> (cgId (t ! i) \<notin> Some ` updated_ids t (map spec_list_entry items)
                   \<longrightarrow> t' ! i = t ! i)))
   \<and> length (enrich_details_tokens clean float_text fetch t ids skip_images now) = length t
   \<and> (\<forall>i<length t.
         (cgId (t ! i) \<in> set ids \<and> enrich_succeeds clean float_text fetch skip_images (cgId (t ! i))
            \<longrightarrow> updatedAt (enrich_details_tokens clean float_text fetch t ids skip_images now ! i)
                  = Some now)
       \<and> (\<not> (cgId (t ! i) \<in> set ids
               \<and> enrich_succeeds clean float_text fetch skip_images (cgId (t ! i)))
            \<longrightarrow> enrich_details_tokens clean float_text fetch t ids skip_images now ! i = t ! i))"
proof -
  have patch: "length t' = length t
          \<and> (\<forall>i<length t.
                (cgId (t ! i) \<in> Some ` updated_ids t (map spec_list_entry items)
                   \<longrightarrow> updatedAt (t' ! i) = Some ts)
              \<and> (cgId (t ! i) \<notin> Some ` updated_ids t (map spec_list_entry items)
                   \<longrightarrow> t' ! i = t ! i))"
    if run: "apply_patches float_text t p False ts = Inr (t', u, m, s)"
      and items: "patch_items p = Inr items"
  proof -
    from run items obtain sr
      where loop: "patch_loop float_text False ts \<lparr>table = t, updated = 0, missing = 0, skipped = 0\<rparr> items
                     = Inr sr"
        and t': "t' = table sr"
      by (auto simp: apply_patches_def split: sum.splits)
    from patch_loop_rows [OF loop] t' obtain f
      where "t' = map f t"
        and "\<forall>r. cgId r \<in> Some ` updated_ids t (map spec_list_entry items) \<longrightarrow> updatedAt (f r) = Some ts"
        and "\<forall>r. cgId r \<notin> Some ` updated_ids t (map spec_list_entry items) \<longrightarrow> f r = r"
      by auto
    then show ?thesis by simp
  qed
  obtain g
    where e: "enrich_details_tokens clean float_text fetch t ids skip_images now = map g t"
      and hit: "\<forall>r. cgId r \<in> set ids \<and> enrich_succeeds clean float_text fetch skip_images (cgId r)
              \<longrightarrow> updatedAt (g r) = Some now"
      and miss: "\<forall>r. \<not> (cgId r \<in> set ids \<and> enrich_succeeds clean float_text fetch skip_images (cgId r))
              \<longrightarrow> g r = r"
    using enrich_details_rows [of clean float_text fetch t ids skip_images now] by blast
  have enrich: "length (enrich_details_tokens clean float_text fetch t ids skip_images now) = length t
   \<and> (\<forall>i<length t.
         (cgId (t ! i) \<in> set ids \<and> enrich_succeeds clean float_text fetch skip_images (cgId (t ! i))
            \<longrightarrow> updatedAt (enrich_details_tokens clean float_text fetch t ids skip_images now ! i)
                  = Some now)
       \<and> (\<not> (cgId (t ! i) \<in> set ids
               \<and> enrich_succeeds clean float_text fetch skip_images (cgId (t ! i)))
            \<longrightarrow> enrich_details_tokens clean float_text fetch t ids skip_images now ! i = t ! i))"
    using hit miss by (simp add: e)
  from patch enrich show ?thesis by blast
qed

text \<open>
  The instance: the two writes of the counterexample, which change nothing but
  \<^verbatim>\<open>updatedAt\<close>.
\<close>

theorem updatedAt_set_by_every_update_witness:
  "apply_patches example_float_text [described_row] same_patch False 9
     = Inr ([described_row\<lparr>updatedAt := Some 9\<rparr>], 1, 0, 0)
   \<and> patch_items same_patch = Inr [JObj [(''cgId'', JStr ''c''), (''description'', JStr ''old'')]]
   \<and> cgId described_row
       \<in> Some ` updated_ids [described_row]
            (map spec_list_entry [JObj [(''cgId'', JStr ''c''), (''description'', JStr ''old'')]])
   \<and> updatedAt ([described_row\<lparr>updatedAt := Some 9\<rparr>] ! 0) = Some 9
   \<and> cgId described_row \<in> set [Some ''c'']
   \<and> enrich_succeeds no_clean example_float_text same_fetch True (cgId described_row)
   \<and> updatedAt (enrich_details_tokens no_clean example_float_text same_fetch [described_row]
                  [Some ''c''] True 9 ! 0) = Some 9"
proof -
  have items: "patch_items same_patch = Inr [JObj [(''cgId'', JStr ''c''), (''description'', JStr ''old'')]]"
    by (simp add: patch_items_def same_patch_def)
  have ex: "exists_row [described_row] ''c''"
    by (simp add: exists_row_def described_row_def example_row_def)
  have c: "cgId described_row = Some ''c''"
    by (simp add: described_row_def example_row_def)
  have ids: "cgId described_row
       \<in> Some ` updated_ids [described_row]
            (map spec_list_entry [JObj [(''cgId'', JStr ''c''), (''description'', JStr ''old'')]])"
    by (simp add: updated_ids_Cons spec_outcome_def spec_list_entry_def spec_identifier_def
        py_get_def py_or_def strip_c ex empty_field_def c)
  have mem: "cgId described_row \<in> set [Some ''c'']"
    by (simp add: c)
  have ok: "enrich_succeeds no_clean example_float_text same_fetch True (cgId described_row)"
    by (simp add: enrich_succeeds_def enrich_params_def enrich_values_def strip_html_def
        same_fetch_def no_clean_def py_get_def py_or_def bind_text_def c)
  note inst = updatedAt_set_by_every_update [of example_float_text "[described_row]" same_patch 9
      "[described_row\<lparr>updatedAt := Some 9\<rparr>]" 1 0 0
      "[JObj [(''cgId'', JStr ''c''), (''description'', JStr ''old'')]]"
      no_clean same_fetch "[Some ''c'']" True 9]
  from inst same_patch_run items ids
  have p: "updatedAt ([described_row\<lparr>updatedAt := Some 9\<rparr>] ! 0) = Some 9"
    by simp
  from inst mem ok
  have e: "updatedAt (enrich_details_tokens no_clean example_float_text same_fetch [described_row]
                  [Some ''c''] True 9 ! 0) = Some 9"
    by simp
  from same_patch_run items ids p mem ok e show ?thesis by blast
qed

section \<open>What a pass does to a description that is there\<close>













end
